theory Spec2Isabelle
  imports Main "HOL-Library.Word" "HOL-Library.Signed_Division"
begin

section \<open>The abstract syntax tree (package ast)\<close>

text \<open>
  The Go sources declare one struct per node kind and the interfaces \<open>Node\<close>,
  \<open>Statement\<close> and \<open>Expression\<close>.  The two interfaces become two mutually recursive
  datatypes.  A field is an \<open>option\<close> exactly where the printing methods of the
  package test it against \<open>nil\<close> before use (\<open>VarStatement.Value\<close>,
  \<open>ReturnStatement.ReturnValue\<close>, \<open>ExpressionStatement.Expression\<close>) and where the
  evaluator does (\<open>IfExpression.Alternative\<close>).  Tokens kept in the nodes only serve
  printing and are left out.

  Modelled from the spec: the declarations of \<open>BooleanLiteral\<close>, \<open>BlockStatement\<close> and
  \<open>IfExpression\<close> are not among the sources; their fields are the ones the evaluator
  reads.  \<open>StringLiteral\<close>, \<open>ArrayLiteral\<close>, \<open>HashLiteral\<close>, \<open>FunctionLiteral\<close>,
  \<open>CallExpression\<close> and \<open>IndexExpression\<close> are the remaining expression variants of the
  node set of the specification; the evaluator has no case for them.
\<close>

type_synonym int64 = "64 word"

datatype expression =
    Identifier string
  | IntegerLiteral int64
  | BooleanLiteral bool
  | PrefixExpression string expression
  | InfixExpression expression string expression
  | IfExpression expression "statement list" "statement list option"
  | StringLiteral string
  | ArrayLiteral "expression list"
  | HashLiteral "(expression \<times> expression) list"
  | FunctionLiteral "string list" "statement list"
  | CallExpression expression "expression list"
  | IndexExpression expression expression
and statement =
    VarStatement string "expression option"
  | ReturnStatement "expression option"
  | ExpressionStatement "expression option"
  | BlockStatement "statement list"

text \<open>A value of the interface \<open>ast.Node\<close> that \<open>Eval\<close> is called with.\<close>

datatype node =
    Program "statement list"
  | Statement statement
  | Expression expression

section \<open>Runtime objects (package object)\<close>

text \<open>
  Objects are heap cells reached through pointers, and the evaluator compares such
  pointers (\<open>switch right { case TRUE: ... }\<close>, \<open>left == right\<close>).  Every object
  therefore carries the address of its cell.  The evaluator never writes to an object
  after creating it, so the contents travel with the address.

  Modelled from the spec: package \<open>object\<close> is not among the sources.  The variants
  are the five struct literals the evaluator builds, with the fields it gives them;
  \<open>Return\<close> wraps the interface value it was given, which may be \<open>nil\<close>.
\<close>

type_synonym addr = nat

datatype object =
    Integer addr int64
  | Boolean addr bool
  | Null addr
  | Return addr "object option"
  | Error addr string

datatype object_type =
  object_INTEGER | object_BOOLEAN | object_NULL | object_RETURN | object_ERROR

fun Type :: "object \<Rightarrow> object_type" where
  "Type (Integer a v) = object_INTEGER"
| "Type (Boolean a v) = object_BOOLEAN"
| "Type (Null a) = object_NULL"
| "Type (Return a v) = object_RETURN"
| "Type (Error a m) = object_ERROR"

fun address :: "object \<Rightarrow> addr" where
  "address (Integer a v) = a"
| "address (Boolean a v) = a"
| "address (Null a) = a"
| "address (Return a v) = a"
| "address (Error a m) = a"

text \<open>
  Modelled from the spec: the text that \<open>%s\<close> prints for a type tag.  The
  specification shows \<open>INTEGER\<close> and \<open>BOOLEAN\<close> in its messages; the other three
  tags are printed by the names of their constants.
\<close>

fun type_name :: "object_type \<Rightarrow> string" where
  "type_name object_INTEGER = ''INTEGER''"
| "type_name object_BOOLEAN = ''BOOLEAN''"
| "type_name object_NULL = ''NULL''"
| "type_name object_RETURN = ''RETURN''"
| "type_name object_ERROR = ''ERROR''"

text \<open>
  Comparison of two interface values holding object pointers: both \<open>nil\<close>, or the
  same dynamic type and the same address.
\<close>

fun same_object :: "object option \<Rightarrow> object option \<Rightarrow> bool" where
  "same_object None None = True"
| "same_object (Some a) (Some b) = (Type a = Type b \<and> address a = address b)"
| "same_object _ _ = False"

text \<open>
  Modelled from the spec: the environment is a mapping from names to objects for the
  current scope and an optional enclosing environment.  \<open>Get\<close> searches the current
  scope and then the enclosing ones; \<open>Set\<close> binds in the current scope and yields the
  bound value.  A binding may hold the \<open>nil\<close> interface value.
\<close>

datatype environment =
  Environment (store: "string \<rightharpoonup> object option") (outer: "environment option")

fun Get :: "environment \<Rightarrow> string \<Rightarrow> object option \<times> bool" where
  "Get (Environment s None) name =
     (case s name of None \<Rightarrow> (None, False) | Some v \<Rightarrow> (v, True))"
| "Get (Environment s (Some p)) name =
     (case s name of None \<Rightarrow> Get p name | Some v \<Rightarrow> (v, True))"

fun Set :: "environment \<Rightarrow> string \<Rightarrow> object option \<Rightarrow> object option \<times> environment" where
  "Set (Environment s p) name val = (val, Environment (s(name \<mapsto> val)) p)"

definition NewEnvironment :: environment where
  "NewEnvironment = Environment Map.empty None"

section \<open>The evaluator (package evaluator)\<close>

text \<open>
  The three package-level objects.  They occupy the first three cells; every later
  allocation takes the next free address.
\<close>

definition TRUE :: object where "TRUE = Boolean 0 True"
definition FALSE :: object where "FALSE = Boolean 1 False"
definition NULL :: object where "NULL = Null 2"

text \<open>
  What the evaluator reads and writes: the environment it was handed (changed by
  \<open>env.Set\<close>) and the next free address of the heap (advanced by every \<open>&object.T{...}\<close>).
\<close>

record state =
  env :: environment
  nextAddr :: addr

definition initial :: state where
  "initial = \<lparr>env = NewEnvironment, nextAddr = 3\<rparr>"

text \<open>
  The run-time panics of the host: calling \<open>Type()\<close> on a \<open>nil\<close> interface value,
  integer division by zero, and a failed type assertion.  A result is a panic or the
  returned interface value (\<open>None\<close> is \<open>nil\<close>) with the state left behind.
\<close>

datatype panic = NilDereference | DivideByZero | TypeAssertion

type_synonym result = "panic + object option \<times> state"

definition newError :: "string \<Rightarrow> state \<Rightarrow> result" where
  "newError msg st = Inr (Some (Error (nextAddr st) msg), st\<lparr>nextAddr := nextAddr st + 1\<rparr>)"

definition newInteger :: "int64 \<Rightarrow> state \<Rightarrow> result" where
  "newInteger v st = Inr (Some (Integer (nextAddr st) v), st\<lparr>nextAddr := nextAddr st + 1\<rparr>)"

definition newReturn :: "object option \<Rightarrow> state \<Rightarrow> result" where
  "newReturn v st = Inr (Some (Return (nextAddr st) v), st\<lparr>nextAddr := nextAddr st + 1\<rparr>)"

fun isError :: "object option \<Rightarrow> bool" where
  "isError None = False"
| "isError (Some obj) = (Type obj = object_ERROR)"

definition evalBoolToBooleanObjectReference :: "bool \<Rightarrow> object" where
  "evalBoolToBooleanObjectReference val = (if val then TRUE else FALSE)"

definition evalBangOperatorExpression :: "object option \<Rightarrow> object" where
  "evalBangOperatorExpression right =
     (if same_object right (Some TRUE) then FALSE
      else if same_object right (Some FALSE) then TRUE
      else if same_object right (Some NULL) then TRUE
      else FALSE)"

fun evalMinusPrefixOperatorExpression :: "object option \<Rightarrow> state \<Rightarrow> result" where
  "evalMinusPrefixOperatorExpression None st = Inl NilDereference"
| "evalMinusPrefixOperatorExpression (Some (Integer a v)) st = newInteger (- v) st"
| "evalMinusPrefixOperatorExpression (Some right) st =
     newError (''unknown operator: -'' @ type_name (Type right)) st"

definition evalPrefixExpression :: "string \<Rightarrow> object option \<Rightarrow> state \<Rightarrow> result" where
  "evalPrefixExpression operator right st =
     (if operator = ''!'' then Inr (Some (evalBangOperatorExpression right), st)
      else if operator = ''-'' then evalMinusPrefixOperatorExpression right st
      else (case right of
              None \<Rightarrow> Inl NilDereference
            | Some r \<Rightarrow> newError (''unknown operator: '' @ operator @ type_name (Type r)) st))"

text \<open>
  Division of \<open>int64\<close> truncates towards zero, wraps for the one quotient that does
  not fit, and panics for a zero divisor.
\<close>

definition int64_quo :: "int64 \<Rightarrow> int64 \<Rightarrow> int64" where
  "int64_quo x y = word_of_int (sint x sdiv sint y)"

fun evalIntegerInfixExpression :: "string \<Rightarrow> object \<Rightarrow> object \<Rightarrow> state \<Rightarrow> result" where
  "evalIntegerInfixExpression operator (Integer la leftVal) (Integer ra rightVal) st =
     (if operator = ''+'' then newInteger (leftVal + rightVal) st
      else if operator = ''-'' then newInteger (leftVal - rightVal) st
      else if operator = ''*'' then newInteger (leftVal * rightVal) st
      else if operator = ''/'' then
        (if rightVal = 0 then Inl DivideByZero else newInteger (int64_quo leftVal rightVal) st)
      else if operator = ''<'' then
        Inr (Some (evalBoolToBooleanObjectReference (sint leftVal < sint rightVal)), st)
      else if operator = ''>'' then
        Inr (Some (evalBoolToBooleanObjectReference (sint leftVal > sint rightVal)), st)
      else if operator = ''=='' then
        Inr (Some (evalBoolToBooleanObjectReference (leftVal = rightVal)), st)
      else if operator = ''!='' then
        Inr (Some (evalBoolToBooleanObjectReference (leftVal \<noteq> rightVal)), st)
      else if operator = ''<='' then
        Inr (Some (evalBoolToBooleanObjectReference (sint leftVal \<le> sint rightVal)), st)
      else if operator = ''>='' then
        Inr (Some (evalBoolToBooleanObjectReference (sint leftVal \<ge> sint rightVal)), st)
      else newError (''unknown operator: '' @ type_name object_INTEGER @ '' '' @ operator
                       @ '' '' @ type_name object_INTEGER) st)"
| "evalIntegerInfixExpression operator left right st = Inl TypeAssertion"

fun evalInfixExpression :: "string \<Rightarrow> object option \<Rightarrow> object option \<Rightarrow> state \<Rightarrow> result" where
  "evalInfixExpression operator (Some left) (Some right) st =
     (if Type left \<noteq> Type right then
        newError (''type mismatch: '' @ type_name (Type left) @ '' '' @ operator
                    @ '' '' @ type_name (Type right)) st
      else if Type left = object_INTEGER \<and> Type right = object_INTEGER then
        evalIntegerInfixExpression operator left right st
      else if operator = ''=='' then
        Inr (Some (evalBoolToBooleanObjectReference (same_object (Some left) (Some right))), st)
      else if operator = ''!='' then
        Inr (Some (evalBoolToBooleanObjectReference (\<not> same_object (Some left) (Some right))), st)
      else
        newError (''unknown operator: '' @ type_name (Type left) @ '' '' @ operator
                    @ '' '' @ type_name (Type right)) st)"
| "evalInfixExpression operator left right st = Inl NilDereference"

definition isTruthy :: "object option \<Rightarrow> bool" where
  "isTruthy obj =
     (if same_object obj (Some NULL) then False
      else if same_object obj (Some FALSE) then False
      else if same_object obj (Some TRUE) then True
      else True)"

definition evalIdentifier :: "string \<Rightarrow> state \<Rightarrow> result" where
  "evalIdentifier name st =
     (case Get (env st) name of
        (val, ok) \<Rightarrow> if \<not> ok then newError (''unknown identifier: '' @ name) st
                     else Inr (val, st))"

text \<open>
  \<open>Eval\<close> with the two statement loops and \<open>evalIfExpression\<close>, which call it back.
  The loops carry the local variable \<open>result\<close>, \<open>nil\<close> before the first statement.
\<close>

fun node_size :: "node \<Rightarrow> nat" where
  "node_size (Program stmts) = 2 * size_list size stmts + 1"
| "node_size (Statement s) = 2 * size s"
| "node_size (Expression e) = 2 * size e"

function Eval :: "node \<Rightarrow> state \<Rightarrow> result"
and evalProgram_loop :: "object option \<Rightarrow> statement list \<Rightarrow> state \<Rightarrow> result"
and evalBlockStatement_loop :: "object option \<Rightarrow> statement list \<Rightarrow> state \<Rightarrow> result"
and evalIfExpression :: "expression \<Rightarrow> statement list \<Rightarrow> statement list option \<Rightarrow> state \<Rightarrow> result"
where
  "Eval (Program stmts) st = evalProgram_loop None stmts st"
| "Eval (Statement (ExpressionStatement None)) st = Inr (None, st)"
| "Eval (Statement (ExpressionStatement (Some e))) st = Eval (Expression e) st"
| "Eval (Statement (BlockStatement stmts)) st = evalBlockStatement_loop None stmts st"
| "Eval (Statement (ReturnStatement None)) st = newReturn None st"
| "Eval (Statement (ReturnStatement (Some e))) st =
     (case Eval (Expression e) st of
        Inl p \<Rightarrow> Inl p
      | Inr (val, st1) \<Rightarrow> if isError val then Inr (val, st1) else newReturn val st1)"
| "Eval (Statement (VarStatement name None)) st =
     (case Set (env st) name None of (val, env1) \<Rightarrow> Inr (val, st\<lparr>env := env1\<rparr>))"
| "Eval (Statement (VarStatement name (Some e))) st =
     (case Eval (Expression e) st of
        Inl p \<Rightarrow> Inl p
      | Inr (val, st1) \<Rightarrow>
          if isError val then Inr (val, st1)
          else (case Set (env st1) name val of (val1, env1) \<Rightarrow> Inr (val1, st1\<lparr>env := env1\<rparr>)))"
| "Eval (Expression (IntegerLiteral v)) st = newInteger v st"
| "Eval (Expression (BooleanLiteral v)) st =
     Inr (Some (evalBoolToBooleanObjectReference v), st)"
| "Eval (Expression (PrefixExpression operator r)) st =
     (case Eval (Expression r) st of
        Inl p \<Rightarrow> Inl p
      | Inr (right, st1) \<Rightarrow>
          if isError right then Inr (right, st1)
          else evalPrefixExpression operator right st1)"
| "Eval (Expression (InfixExpression l operator r)) st =
     (case Eval (Expression l) st of
        Inl p \<Rightarrow> Inl p
      | Inr (left, st1) \<Rightarrow>
          if isError left then Inr (left, st1)
          else (case Eval (Expression r) st1 of
                  Inl p \<Rightarrow> Inl p
                | Inr (right, st2) \<Rightarrow>
                    if isError right then Inr (right, st2)
                    else evalInfixExpression operator left right st2))"
| "Eval (Expression (IfExpression c cons alt)) st = evalIfExpression c cons alt st"
| "Eval (Expression (Identifier name)) st = evalIdentifier name st"
| "Eval (Expression (StringLiteral s)) st = Inr (None, st)"
| "Eval (Expression (ArrayLiteral es)) st = Inr (None, st)"
| "Eval (Expression (HashLiteral ps)) st = Inr (None, st)"
| "Eval (Expression (FunctionLiteral ps body)) st = Inr (None, st)"
| "Eval (Expression (CallExpression f args)) st = Inr (None, st)"
| "Eval (Expression (IndexExpression l i)) st = Inr (None, st)"
| "evalProgram_loop result [] st = Inr (result, st)"
| "evalProgram_loop result (stmnt # rest) st =
     (case Eval (Statement stmnt) st of
        Inl p \<Rightarrow> Inl p
      | Inr (r, st1) \<Rightarrow>
          (case r of
             Some (Return a v) \<Rightarrow> Inr (v, st1)
           | Some (Error a m) \<Rightarrow> Inr (r, st1)
           | _ \<Rightarrow> evalProgram_loop r rest st1))"
| "evalBlockStatement_loop result [] st = Inr (result, st)"
| "evalBlockStatement_loop result (stmnt # rest) st =
     (case Eval (Statement stmnt) st of
        Inl p \<Rightarrow> Inl p
      | Inr (r, st1) \<Rightarrow>
          (case r of
             None \<Rightarrow> evalBlockStatement_loop r rest st1
           | Some obj \<Rightarrow>
               if Type obj = object_RETURN \<or> Type obj = object_ERROR then Inr (r, st1)
               else evalBlockStatement_loop r rest st1))"
| "evalIfExpression c cons alt st =
     (case Eval (Expression c) st of
        Inl p \<Rightarrow> Inl p
      | Inr (condition, st1) \<Rightarrow>
          if isError condition then Inr (condition, st1)
          else if isTruthy condition then Eval (Statement (BlockStatement cons)) st1
          else (case alt of
                  Some a \<Rightarrow> Eval (Statement (BlockStatement a)) st1
                | None \<Rightarrow> Inr (Some NULL, st1)))"
  by pat_completeness auto

text \<open>
  Every call descends in the syntax tree: the measure is twice the size of the node or
  statement list at hand, plus one where a function only dispatches on what it was given.
\<close>

termination
  by (relation "measure (\<lambda>x. case x of
        Inl (Inl (n, st)) \<Rightarrow> node_size n
      | Inl (Inr (res, stmts, st)) \<Rightarrow> 2 * size_list size stmts
      | Inr (Inl (res, stmts, st)) \<Rightarrow> 2 * size_list size stmts
      | Inr (Inr (c, cons, alt, st)) \<Rightarrow>
          2 * (size c + size_list size cons
                 + (case alt of None \<Rightarrow> 1 | Some a \<Rightarrow> size_list size a + 1)) + 1)")
    (auto split: option.splits)

definition evalProgram :: "statement list \<Rightarrow> state \<Rightarrow> result" where
  "evalProgram stmts st = evalProgram_loop None stmts st"

definition evalBlockStatement :: "statement list \<Rightarrow> state \<Rightarrow> result" where
  "evalBlockStatement stmts st = evalBlockStatement_loop None stmts st"

section \<open>The lexer (package lexer)\<close>

text \<open>
  Modelled from the spec: package \<open>token\<close> is not among the sources.  A token has a kind,
  its literal text and a source line; the kinds are the constants the lexer and its tests
  name.  \<open>token.LookUpIdent\<close>, the keyword table, is a parameter of \<open>NextToken\<close>.
\<close>

datatype token_type =
    token_ILLEGAL | token_EOF | token_IDENT | token_INT | token_STRING
  | token_ASSIGN | token_PLUS | token_MINUS | token_BANG | token_ASTERISK | token_SLASH
  | token_LT | token_GT | token_LTE | token_GTE | token_EQ | token_NEQ
  | token_COMMA | token_SEMICOLON | token_COLON
  | token_LPAREN | token_RPAREN | token_LBRACE | token_RBRACE | token_LBRACKET | token_RBRACKET
  | token_FUNCTION | token_CONST | token_BOOLEAN | token_IF | token_ELSE | token_RETURN

datatype token = Token (tokenType: token_type) (Literal: string) (LineNumber: int)

text \<open>
  (The struct \<open>token.Token\<close> with its fields \<open>Type\<close>, \<open>Literal\<close> and \<open>LineNumber\<close>; the
  first selector is called \<open>tokenType\<close> because \<open>Type\<close> is the objects' method here.)
\<close>

text \<open>The lexer's fields.  \<open>input\<close> is a byte string; the byte 0 stands for the end of input.\<close>

record Lexer =
  input :: string
  position :: nat
  nextPosition :: nat
  ch :: char
  RowNum :: int

definition NUL :: char where "NUL = CHR 0x00"

definition readChar :: "Lexer \<Rightarrow> Lexer" where
  "readChar l =
     l\<lparr>ch := (if nextPosition l \<ge> length (input l) then NUL else input l ! nextPosition l),
       position := nextPosition l,
       nextPosition := nextPosition l + 1\<rparr>"

definition New :: "string \<Rightarrow> Lexer" where
  "New inp = readChar \<lparr>input = inp, position = 0, nextPosition = 0, ch = NUL, RowNum = 1\<rparr>"

definition peekChar :: "Lexer \<Rightarrow> char" where
  "peekChar l = (if nextPosition l \<ge> length (input l) then NUL else input l ! nextPosition l)"

definition isLetter :: "char \<Rightarrow> bool" where
  "isLetter c =
     ((of_char (CHR ''a'') \<le> (of_char c :: nat) \<and> (of_char c :: nat) \<le> of_char (CHR ''z''))
      \<or> (of_char (CHR ''A'') \<le> (of_char c :: nat) \<and> (of_char c :: nat) \<le> of_char (CHR ''Z''))
      \<or> c = CHR ''_'')"

definition isDigit :: "char \<Rightarrow> bool" where
  "isDigit c = (of_char (CHR ''0'') \<le> (of_char c :: nat) \<and> (of_char c :: nat) \<le> of_char (CHR ''9''))"

text \<open>
  The conversion \<open>string(ch)\<close> of a byte reads it as a code point and encodes that in
  UTF-8: one byte below 128, else the two bytes \<open>0xC0 + ch / 64\<close> and \<open>0x80 + ch mod 64\<close>.
\<close>

definition string_of_byte :: "char \<Rightarrow> string" where
  "string_of_byte c =
     (if (of_char c :: nat) < 128 then [c]
      else [char_of (192 + (of_char c :: nat) div 64), char_of (128 + (of_char c :: nat) mod 64)])"

definition newToken :: "token_type \<Rightarrow> char \<Rightarrow> int \<Rightarrow> token" where
  "newToken ty c lineNum = Token ty (string_of_byte c) lineNum"

text \<open>
  The test for a line feed or a carriage return, and the loop condition of \<open>skipWhitespace\<close>;
  \<open>countLine\<close> is the conditional \<open>l.RowNum++\<close> that two loops share.
\<close>

definition isLineBreak :: "char \<Rightarrow> bool" where
  "isLineBreak c = (c = CHR 0x0A \<or> c = CHR 0x0D)"

definition isWhitespace :: "char \<Rightarrow> bool" where
  "isWhitespace c = (c = CHR '' '' \<or> c = CHR 0x09 \<or> c = CHR 0x0A \<or> c = CHR 0x0D)"

definition countLine :: "Lexer \<Rightarrow> Lexer" where
  "countLine l = (if isLineBreak (ch l) then l\<lparr>RowNum := RowNum l + 1\<rparr> else l)"

text \<open>
  The loops below end because each turn either moves \<open>nextPosition\<close> towards the end of
  the input or, at the end, reads the byte 0, which no loop condition accepts.
\<close>

definition remaining :: "Lexer \<Rightarrow> nat" where
  "remaining l = length (input l) - nextPosition l"

lemma remaining_readChar: "remaining (readChar l) = remaining l - 1"
  by (simp add: remaining_def readChar_def)

lemma remaining_countLine [simp]: "remaining (countLine l) = remaining l"
  by (simp add: remaining_def countLine_def)

lemma ch_readChar_end: "remaining l = 0 \<Longrightarrow> ch (readChar l) = NUL"
  by (simp add: remaining_def readChar_def)

lemma not_special_NUL [simp]:
  "\<not> isWhitespace NUL" "\<not> isLetter NUL" "\<not> isDigit NUL" "\<not> isLineBreak NUL"
  by (simp_all add: isWhitespace_def isLetter_def isDigit_def isLineBreak_def NUL_def)

function skipWhitespace :: "Lexer \<Rightarrow> Lexer" where
  "skipWhitespace l =
     (if isWhitespace (ch l) then skipWhitespace (readChar (countLine l)) else l)"
  by pat_completeness auto
termination
proof (relation "measure (\<lambda>l. 2 * remaining l + (if isWhitespace (ch l) then 1 else 0))")
  fix l :: Lexer
  assume "isWhitespace (ch l)"
  then show "(readChar (countLine l), l)
     \<in> measure (\<lambda>l. 2 * remaining l + (if isWhitespace (ch l) then 1 else 0))"
    using ch_readChar_end [of "countLine l"]
    by (cases "remaining l") (auto simp: remaining_readChar)
qed simp

declare skipWhitespace.simps [simp del]

function skipOneLineComment :: "Lexer \<Rightarrow> Lexer" where
  "skipOneLineComment l =
     (if ch l \<noteq> CHR 0x0A \<and> ch l \<noteq> CHR 0x0D \<and> ch l \<noteq> NUL
      then skipOneLineComment (readChar l) else l)"
  by pat_completeness auto
termination
proof (relation "measure (\<lambda>l. 2 * remaining l + (if ch l \<noteq> NUL then 1 else 0))")
  fix l :: Lexer
  assume "ch l \<noteq> CHR 0x0A \<and> ch l \<noteq> CHR 0x0D \<and> ch l \<noteq> NUL"
  then show "(readChar l, l) \<in> measure (\<lambda>l. 2 * remaining l + (if ch l \<noteq> NUL then 1 else 0))"
    using ch_readChar_end [of l]
    by (cases "remaining l") (auto simp: remaining_readChar)
qed simp

declare skipOneLineComment.simps [simp del]

function readIdent_loop :: "Lexer \<Rightarrow> Lexer" where
  "readIdent_loop l = (if isLetter (ch l) then readIdent_loop (readChar l) else l)"
  by pat_completeness auto
termination
proof (relation "measure (\<lambda>l. 2 * remaining l + (if isLetter (ch l) then 1 else 0))")
  fix l :: Lexer
  assume "isLetter (ch l)"
  then show "(readChar l, l) \<in> measure (\<lambda>l. 2 * remaining l + (if isLetter (ch l) then 1 else 0))"
    using ch_readChar_end [of l]
    by (cases "remaining l") (auto simp: remaining_readChar)
qed simp

declare readIdent_loop.simps [simp del]

function readNumber_loop :: "Lexer \<Rightarrow> Lexer" where
  "readNumber_loop l = (if isDigit (ch l) then readNumber_loop (readChar l) else l)"
  by pat_completeness auto
termination
proof (relation "measure (\<lambda>l. 2 * remaining l + (if isDigit (ch l) then 1 else 0))")
  fix l :: Lexer
  assume "isDigit (ch l)"
  then show "(readChar l, l) \<in> measure (\<lambda>l. 2 * remaining l + (if isDigit (ch l) then 1 else 0))"
    using ch_readChar_end [of l]
    by (cases "remaining l") (auto simp: remaining_readChar)
qed simp

declare readNumber_loop.simps [simp del]

text \<open>
  The substring \<open>s[i:j]\<close>.  Go panics unless \<open>i \<le> j \<le> len(s)\<close>; the lexer slices only
  between positions it has read, where this holds.
\<close>

definition slice :: "string \<Rightarrow> nat \<Rightarrow> nat \<Rightarrow> string" where
  "slice s i j = take (j - i) (drop i s)"

definition readIdent :: "Lexer \<Rightarrow> string \<times> Lexer" where
  "readIdent l = (let l1 = readIdent_loop l in (slice (input l1) (position l) (position l1), l1))"

definition readNumber :: "Lexer \<Rightarrow> string \<times> Lexer" where
  "readNumber l = (let l1 = readNumber_loop l in (slice (input l1) (position l) (position l1), l1))"

text \<open>What \<open>%d\<close> prints for an \<open>int\<close>.\<close>

fun decimal :: "nat \<Rightarrow> string" where
  "decimal n = (if n < 10 then [''0123456789'' ! n]
                else decimal (n div 10) @ [''0123456789'' ! (n mod 10)])"

definition fmt_d :: "int \<Rightarrow> string" where
  "fmt_d i = (if i < 0 then CHR ''-'' # decimal (nat (- i)) else decimal (nat i))"

declare decimal.simps [simp del]

text \<open>The three messages that \<open>fmt.Sprintf\<close> builds; each ends in two line feeds.\<close>

definition comment_message :: "int \<Rightarrow> string" where
  "comment_message n =
     ''FATAL ERROR: comment not terminated at line: '' @ fmt_d n @ [CHR 0x0A, CHR 0x0A]"

definition string_message :: "int \<Rightarrow> string" where
  "string_message n =
     ''FATAL ERROR: string literal not terminated at line: '' @ fmt_d n @ [CHR 0x0A, CHR 0x0A]"

definition character_message :: "string \<Rightarrow> int \<Rightarrow> string" where
  "character_message quoted n =
     ''FATAL ERROR: illegal character: '' @ quoted @ '' at line: '' @ fmt_d n
       @ [CHR 0x0A, CHR 0x0A]"

text \<open>
  The loop of \<open>readString\<close> either breaks at the closing quote (\<open>Inr\<close>) or returns the
  token for an unterminated string from inside the loop (\<open>Inl\<close>).
\<close>

function readString_loop :: "Lexer \<Rightarrow> token \<times> Lexer + Lexer" where
  "readString_loop l =
     (let l1 = readChar l in
      if ch l1 = CHR 0x22 then Inr l1
      else if ch l1 = NUL then
        Inl (Token token_ILLEGAL (string_message (RowNum l1)) (RowNum l1), l1)
      else readString_loop l1)"
  by pat_completeness auto
termination
proof (relation "measure remaining")
  fix l l1 :: Lexer
  assume "l1 = readChar l" and "ch l1 \<noteq> NUL"
  then show "(l1, l) \<in> measure remaining"
    using ch_readChar_end [of l]
    by (cases "remaining l") (auto simp: remaining_readChar)
qed simp

declare readString_loop.simps [simp del]

definition readString :: "Lexer \<Rightarrow> token \<times> Lexer" where
  "readString l =
     (case readString_loop l of
        Inl illegal \<Rightarrow> illegal
      | Inr l1 \<Rightarrow>
          (let l2 = readChar l1 in
           (Token token_STRING (slice (input l2) (position l + 1) (position l2 - 1)) (RowNum l2), l2)))"

lemma skipWhitespace_keeps [simp]:
  "input (skipWhitespace l) = input l" "remaining (skipWhitespace l) \<le> remaining l"
  by (induction l rule: skipWhitespace.induct;
      subst skipWhitespace.simps;
      fastforce simp: readChar_def countLine_def remaining_def)+

lemma skipOneLineComment_keeps [simp]:
  "input (skipOneLineComment l) = input l" "remaining (skipOneLineComment l) \<le> remaining l"
  by (induction l rule: skipOneLineComment.induct;
      subst skipOneLineComment.simps;
      fastforce simp: readChar_def remaining_def)+

lemma peekChar_remaining: "peekChar l \<noteq> NUL \<Longrightarrow> 0 < remaining l"
  by (auto simp: peekChar_def remaining_def split: if_splits)

lemma skipOneLineComment_advances:
  "ch l = CHR ''/'' \<Longrightarrow> remaining (skipOneLineComment l) \<le> remaining l - 1"
  using skipOneLineComment_keeps(2) [of "readChar l"]
  by (subst skipOneLineComment.simps) (simp add: NUL_def remaining_readChar)

text \<open>
  \<open>NextToken\<close> and \<open>skipMultipleLineComment\<close> call each other.  Two things that are
  not among the sources are parameters: \<open>LookUpIdent\<close> (package \<open>token\<close>) and \<open>fmt_q\<close>,
  the text that the library's \<open>%q\<close> prints for \<open>string(l.ch)\<close>.
\<close>

function NextToken :: "(string \<Rightarrow> token_type) \<Rightarrow> (char \<Rightarrow> string) \<Rightarrow> Lexer \<Rightarrow> token \<times> Lexer"
and skipMultipleLineComment :: "(string \<Rightarrow> token_type) \<Rightarrow> (char \<Rightarrow> string) \<Rightarrow> Lexer \<Rightarrow> token \<times> Lexer"
and skipMultipleLineComment_loop :: "(string \<Rightarrow> token_type) \<Rightarrow> (char \<Rightarrow> string) \<Rightarrow> Lexer \<Rightarrow> token \<times> Lexer"
where
  "NextToken LookUpIdent fmt_q l0 =
     (let l = skipWhitespace l0 in
      if ch l = CHR ''='' then
        (if peekChar l = CHR ''='' then
           (let l1 = readChar l in (Token token_EQ ''=='' (RowNum l1), readChar l1))
         else (newToken token_ASSIGN (ch l) (RowNum l), readChar l))
      else if ch l = CHR ''+'' then (newToken token_PLUS (ch l) (RowNum l), readChar l)
      else if ch l = CHR ''-'' then (newToken token_MINUS (ch l) (RowNum l), readChar l)
      else if ch l = CHR ''!'' then
        (if peekChar l = CHR ''='' then
           (let l1 = readChar l in (Token token_NEQ ''!='' (RowNum l1), readChar l1))
         else (newToken token_BANG (ch l) (RowNum l), readChar l))
      else if ch l = CHR ''*'' then (newToken token_ASTERISK (ch l) (RowNum l), readChar l)
      else if ch l = CHR ''/'' then
        (if peekChar l = CHR ''/'' then NextToken LookUpIdent fmt_q (skipOneLineComment l)
         else if peekChar l = CHR ''*'' then skipMultipleLineComment LookUpIdent fmt_q l
         else (newToken token_SLASH (ch l) (RowNum l), readChar l))
      else if ch l = CHR ''<'' then
        (if peekChar l = CHR ''='' then
           (let l1 = readChar l in (Token token_LTE ''<='' (RowNum l1), readChar l1))
         else (newToken token_LT (ch l) (RowNum l), readChar l))
      else if ch l = CHR ''>'' then
        (if peekChar l = CHR ''='' then
           (let l1 = readChar l in (Token token_GTE ''>='' (RowNum l1), readChar l1))
         else (newToken token_GT (ch l) (RowNum l), readChar l))
      else if ch l = CHR '','' then (newToken token_COMMA (ch l) (RowNum l), readChar l)
      else if ch l = CHR '';'' then (newToken token_SEMICOLON (ch l) (RowNum l), readChar l)
      else if ch l = CHR ''('' then (newToken token_LPAREN (ch l) (RowNum l), readChar l)
      else if ch l = CHR '')'' then (newToken token_RPAREN (ch l) (RowNum l), readChar l)
      else if ch l = CHR ''{'' then (newToken token_LBRACE (ch l) (RowNum l), readChar l)
      else if ch l = CHR ''}'' then (newToken token_RBRACE (ch l) (RowNum l), readChar l)
      else if ch l = CHR ''['' then (newToken token_LBRACKET (ch l) (RowNum l), readChar l)
      else if ch l = CHR '']'' then (newToken token_RBRACKET (ch l) (RowNum l), readChar l)
      else if ch l = CHR '':'' then (newToken token_COLON (ch l) (RowNum l), readChar l)
      else if ch l = CHR 0x22 then readString l
      else if ch l = NUL then (Token token_EOF [] (RowNum l), readChar l)
      else if isLetter (ch l) then
        (case readIdent l of (lit, l1) \<Rightarrow> (Token (LookUpIdent lit) lit (RowNum l1), l1))
      else if isDigit (ch l) then
        (case readNumber l of (lit, l1) \<Rightarrow> (Token token_INT lit (RowNum l1), l1))
      else
        (Token token_ILLEGAL (character_message (fmt_q (ch l)) (RowNum l)) (RowNum l),
         readChar l))"
| "skipMultipleLineComment LookUpIdent fmt_q l =
     skipMultipleLineComment_loop LookUpIdent fmt_q (readChar (readChar l))"
| "skipMultipleLineComment_loop LookUpIdent fmt_q l =
     (if ch l \<noteq> NUL then
        (if ch l = CHR ''*'' \<and> peekChar l = CHR ''/''
         then NextToken LookUpIdent fmt_q (readChar (readChar l))
         else skipMultipleLineComment_loop LookUpIdent fmt_q (readChar (countLine l)))
      else
        (Token token_ILLEGAL (comment_message (RowNum l)) (RowNum l), l))"
  by pat_completeness auto
termination
proof (relation "measure (\<lambda>x. case x of
          Inl (k, q, l) \<Rightarrow> 3 * remaining l + 2
        | Inr (Inl (k, q, l)) \<Rightarrow> 3 * remaining l + 1
        | Inr (Inr (k, q, l)) \<Rightarrow> 3 * remaining l + (if ch l \<noteq> NUL then 1 else 0))")
  fix LookUpIdent :: "string \<Rightarrow> token_type" and fmt_q :: "char \<Rightarrow> string" and l0 l :: Lexer
  let ?m = "measure (\<lambda>x. case x of
          Inl (k, q, l) \<Rightarrow> 3 * remaining l + 2
        | Inr (Inl (k, q, l)) \<Rightarrow> 3 * remaining l + 1
        | Inr (Inr (k, q, l)) \<Rightarrow> 3 * remaining l + (if ch l \<noteq> NUL then 1 else 0))"
  {
    assume l: "l = skipWhitespace l0" and c: "ch l = CHR ''/''" and p: "peekChar l = CHR ''/''"
    have "0 < remaining l" using p by (intro peekChar_remaining) (simp add: NUL_def)
    moreover have "remaining l \<le> remaining l0" using l by simp
    ultimately show "(Inl (LookUpIdent, fmt_q, skipOneLineComment l), Inl (LookUpIdent, fmt_q, l0)) \<in> ?m"
      using skipOneLineComment_advances [OF c] by simp
  }
  {
    assume l: "l = skipWhitespace l0"
    have "remaining l \<le> remaining l0" using l by simp
    then show "(Inr (Inl (LookUpIdent, fmt_q, l)), Inl (LookUpIdent, fmt_q, l0)) \<in> ?m"
      by simp
  }
  show "(Inr (Inr (LookUpIdent, fmt_q, readChar (readChar l))), Inr (Inl (LookUpIdent, fmt_q, l))) \<in> ?m"
    using ch_readChar_end [of "readChar l"]
    by (cases "remaining l") (auto simp: remaining_readChar)
  {
    assume "ch l = CHR ''*'' \<and> peekChar l = CHR ''/''"
    then have "0 < remaining l" by (intro peekChar_remaining) (simp add: NUL_def)
    then show "(Inl (LookUpIdent, fmt_q, readChar (readChar l)), Inr (Inr (LookUpIdent, fmt_q, l))) \<in> ?m"
      by (simp add: remaining_readChar)
  }
  {
    assume "ch l \<noteq> NUL"
    then show "(Inr (Inr (LookUpIdent, fmt_q, readChar (countLine l))), Inr (Inr (LookUpIdent, fmt_q, l))) \<in> ?m"
      using ch_readChar_end [of "countLine l"]
      by (cases "remaining l") (auto simp: remaining_readChar)
  }
qed simp

declare NextToken.simps [simp del] skipMultipleLineComment_loop.simps [simp del]

section \<open>Notions used in the statements\<close>

text \<open>
  A result that stops a statement loop: a \<open>Return\<close> or an \<open>Error\<close> object.  \<open>unwrapped\<close>
  is what \<open>evalProgram\<close> hands on for it.
\<close>

definition is_signal :: "object option \<Rightarrow> bool" where
  "is_signal r = (case r of None \<Rightarrow> False
                  | Some obj \<Rightarrow> Type obj = object_RETURN \<or> Type obj = object_ERROR)"

definition unwrapped :: "object option \<Rightarrow> object option" where
  "unwrapped r = (case r of Some (Return a v) \<Rightarrow> v | _ \<Rightarrow> r)"

text \<open>
  The nodes \<open>Eval\<close> has a case for, with every optional expression present and every
  statement list non-empty.
\<close>

fun supported_expression :: "expression \<Rightarrow> bool"
and supported_statement :: "statement \<Rightarrow> bool" where
  "supported_expression (Identifier name) = True"
| "supported_expression (IntegerLiteral v) = True"
| "supported_expression (BooleanLiteral v) = True"
| "supported_expression (PrefixExpression operator r) = supported_expression r"
| "supported_expression (InfixExpression l operator r) =
     (supported_expression l \<and> supported_expression r)"
| "supported_expression (IfExpression c cons alt) =
     (supported_expression c \<and> cons \<noteq> [] \<and> (\<forall>s \<in> set cons. supported_statement s)
      \<and> (case alt of None \<Rightarrow> True
                     | Some a \<Rightarrow> a \<noteq> [] \<and> (\<forall>s \<in> set a. supported_statement s)))"
| "supported_expression (StringLiteral s) = False"
| "supported_expression (ArrayLiteral es) = False"
| "supported_expression (HashLiteral ps) = False"
| "supported_expression (FunctionLiteral ps body) = False"
| "supported_expression (CallExpression f args) = False"
| "supported_expression (IndexExpression l i) = False"
| "supported_statement (VarStatement name None) = False"
| "supported_statement (VarStatement name (Some e)) = supported_expression e"
| "supported_statement (ReturnStatement None) = False"
| "supported_statement (ReturnStatement (Some e)) = supported_expression e"
| "supported_statement (ExpressionStatement None) = False"
| "supported_statement (ExpressionStatement (Some e)) = supported_expression e"
| "supported_statement (BlockStatement stmts) =
     (stmts \<noteq> [] \<and> (\<forall>s \<in> set stmts. supported_statement s))"

fun supported :: "node \<Rightarrow> bool" where
  "supported (Program stmts) = (stmts \<noteq> [] \<and> (\<forall>s \<in> set stmts. supported_statement s))"
| "supported (Statement s) = supported_statement s"
| "supported (Expression e) = supported_expression e"

text \<open>
  An object none of whose \<open>Return\<close> wrappers holds \<open>nil\<close>, and an environment that binds
  names to such objects only.
\<close>

fun proper :: "object \<Rightarrow> bool" where
  "proper (Return a None) = False"
| "proper (Return a (Some v)) = proper v"
| "proper obj = True"

fun proper_value :: "object option \<Rightarrow> bool" where
  "proper_value None = False"
| "proper_value (Some obj) = proper obj"

fun proper_environment :: "environment \<Rightarrow> bool" where
  "proper_environment (Environment s p) =
     ((\<forall>v \<in> ran s. proper_value v)
      \<and> (case p of None \<Rightarrow> True | Some q \<Rightarrow> proper_environment q))"

text \<open>
  A result that is an object in a state whose environment binds objects, or the panic
  of an integer division by zero.
\<close>

definition returns_object :: "result \<Rightarrow> bool" where
  "returns_object res = (res = Inl DivideByZero
     \<or> (\<exists>obj st'. res = Inr (Some obj, st') \<and> proper obj \<and> proper_environment (env st')))"

text \<open>
  The Boolean and Null objects an evaluation may yield: the three package-level objects
  and those of \<open>given\<close>, the Boolean and Null objects the caller had put into the
  environment beforehand.
\<close>

fun canonical :: "object set \<Rightarrow> object \<Rightarrow> bool" where
  "canonical given (Boolean a v) =
     (Boolean a v = TRUE \<or> Boolean a v = FALSE \<or> Boolean a v \<in> given)"
| "canonical given (Null a) = (Null a = NULL \<or> Null a \<in> given)"
| "canonical given (Return a None) = True"
| "canonical given (Return a (Some v)) = canonical given v"
| "canonical given obj = True"

fun canonical_value :: "object set \<Rightarrow> object option \<Rightarrow> bool" where
  "canonical_value given None = True"
| "canonical_value given (Some obj) = canonical given obj"

fun canonical_environment :: "object set \<Rightarrow> environment \<Rightarrow> bool" where
  "canonical_environment given (Environment s p) =
     ((\<forall>v \<in> ran s. canonical_value given v)
      \<and> (case p of None \<Rightarrow> True | Some q \<Rightarrow> canonical_environment given q))"

text \<open>A result that is a panic, or a value and an environment of such objects only.\<close>

definition keeps_canonical :: "object set \<Rightarrow> result \<Rightarrow> bool" where
  "keeps_canonical given res = (case res of Inl p \<Rightarrow> True
     | Inr (r, st') \<Rightarrow> canonical_value given r \<and> canonical_environment given (env st'))"

text \<open>
  A lexer as \<open>readChar\<close> leaves it: \<open>ch\<close> is the byte at \<open>position\<close> (0 past the end) and
  \<open>nextPosition\<close> is the index after it.
\<close>

definition consistent :: "Lexer \<Rightarrow> bool" where
  "consistent l = (nextPosition l = position l + 1
     \<and> ch l = (if position l < length (input l) then input l ! position l else NUL))"

text \<open>
  The bytes the lexer reads before it takes the input to have ended (a byte 0 reads as the
  end of input), the number of line feeds and carriage returns among some bytes, and
  whether the closing sequence of a block comment occurs among them.
\<close>

definition scanned :: "string \<Rightarrow> string" where
  "scanned s = takeWhile (\<lambda>c. c \<noteq> NUL) s"

definition line_breaks :: "string \<Rightarrow> int" where
  "line_breaks s = int (length (filter isLineBreak s))"

fun has_close :: "string \<Rightarrow> bool" where
  "has_close (c # d # cs) = ((c = CHR ''*'' \<and> d = CHR ''/'') \<or> has_close (d # cs))"
| "has_close cs = False"

text \<open>The byte the lexer is at when these bytes are still to be read.\<close>

definition ahead :: "string \<Rightarrow> char" where
  "ahead s = (case s of [] \<Rightarrow> NUL | c # _ \<Rightarrow> c)"

text \<open>A lexing result whose token, if it is an identifier, is spelt with letters and underscores only.\<close>

definition letters_if_identifier :: "token \<times> Lexer \<Rightarrow> bool" where
  "letters_if_identifier r =
     (tokenType (fst r) = token_IDENT \<longrightarrow> (\<forall>c \<in> set (Literal (fst r)). isLetter c))"

text \<open>
  Modelled from the spec: a keyword table for \<open>LookUpIdent\<close>, with the keywords the
  lexer's tests show; every other word is an identifier.
\<close>

definition keyword_table :: "string \<Rightarrow> token_type" where
  "keyword_table s =
     (if s = ''fun'' then token_FUNCTION
      else if s = ''const'' then token_CONST
      else if s = ''true'' \<or> s = ''false'' then token_BOOLEAN
      else if s = ''if'' then token_IF
      else if s = ''else'' then token_ELSE
      else if s = ''return'' then token_RETURN
      else token_IDENT)"

section \<open>Properties of the evaluator\<close>

subsection \<open>Empty programs and blocks\<close>

text \<open>
  C8.  A \<open>Program\<close> or a \<open>BlockStatement\<close> with no statements evaluates to the \<open>nil\<close>
  interface value, not to an object (so not to the canonical \<open>NULL\<close> either), and
  leaves the state as it was: the loop body never runs and the zero value of \<open>result\<close>
  is returned.
\<close>

theorem empty_program_and_block_yield_nil:
  "Eval (Program []) st = Inr (None, st)
   \<and> Eval (Statement (BlockStatement [])) st = Inr (None, st)
   \<and> evalProgram [] st = Inr (None, st)
   \<and> evalBlockStatement [] st = Inr (None, st)"
  by (simp add: evalProgram_def evalBlockStatement_def)

subsection \<open>Division by zero\<close>

text \<open>
  C2.  The claim that no evaluation panics fails on the code: the infix expression
  \<open>l / 0\<close> of two integer literals ends in the host's integer-divide-by-zero panic for
  every \<open>l\<close> and every state, since \<open>evalIntegerInfixExpression\<close> divides without
  looking at the divisor.
\<close>

theorem integer_division_by_zero_panics:
  "Eval (Expression (InfixExpression (IntegerLiteral l) ''/'' (IntegerLiteral 0))) st
     = Inl DivideByZero"
  by (simp add: newInteger_def)

text \<open>
  C3.  The same defect seen from \<open>evalInfixExpression\<close>: for two \<open>Integer\<close> operands
  the operator \<open>/\<close> does not produce an \<open>Integer\<close> when the right operand is zero.
\<close>

theorem evalInfixExpression_quotient_by_zero:
  "evalInfixExpression ''/'' (Some (Integer a l)) (Some (Integer b 0)) st = Inl DivideByZero"
  by simp

text \<open>
  The other panic within reach: \<open>right.Type()\<close> and \<open>left.Type()\<close> are called on
  operands that may be \<open>nil\<close>, for instance the value of an \<open>if\<close> whose block is empty.
\<close>

lemma nil_operand_panics:
  "evalPrefixExpression ''-'' None st = Inl NilDereference
   \<and> evalInfixExpression operator None r st = Inl NilDereference
   \<and> evalInfixExpression operator l None st = Inl NilDereference
   \<and> Eval (Expression (PrefixExpression ''-'' (IfExpression (BooleanLiteral True) [] None))) st
       = Inl NilDereference"
  by (cases l)
     (simp_all add: evalPrefixExpression_def evalBoolToBooleanObjectReference_def isTruthy_def
        TRUE_def FALSE_def NULL_def)

subsection \<open>Infix operators\<close>

text \<open>
  What \<open>evalInfixExpression\<close> yields for two objects, a zero divisor apart.  Operands of
  different types give the type-mismatch error.  Two integers give a fresh \<open>Integer\<close> for
  \<open>+\<close>, \<open>-\<close>, \<open>*\<close> and, for a non-zero divisor, the quotient truncated towards zero for
  \<open>/\<close>; they give \<open>TRUE\<close> or \<open>FALSE\<close> by signed comparison for the six comparison
  operators, and the unknown-operator error for any other operator.  Two operands of one
  type other than \<open>INTEGER\<close> give \<open>TRUE\<close> or \<open>FALSE\<close> by identity for \<open>==\<close> and \<open>!=\<close>
  and the unknown-operator error for every other operator.
\<close>

theorem infix_operator_table:
  "(Type l \<noteq> Type r \<longrightarrow>
      evalInfixExpression operator (Some l) (Some r) st
        = newError (''type mismatch: '' @ type_name (Type l) @ '' '' @ operator @ '' ''
                      @ type_name (Type r)) st)
   \<and> evalInfixExpression ''+'' (Some (Integer a x)) (Some (Integer b y)) st = newInteger (x + y) st
   \<and> evalInfixExpression ''-'' (Some (Integer a x)) (Some (Integer b y)) st = newInteger (x - y) st
   \<and> evalInfixExpression ''*'' (Some (Integer a x)) (Some (Integer b y)) st = newInteger (x * y) st
   \<and> (y \<noteq> 0 \<longrightarrow>
        evalInfixExpression ''/'' (Some (Integer a x)) (Some (Integer b y)) st
          = newInteger (word_of_int (sint x sdiv sint y)) st)
   \<and> evalInfixExpression ''<'' (Some (Integer a x)) (Some (Integer b y)) st
       = Inr (Some (if sint x < sint y then TRUE else FALSE), st)
   \<and> evalInfixExpression ''>'' (Some (Integer a x)) (Some (Integer b y)) st
       = Inr (Some (if sint x > sint y then TRUE else FALSE), st)
   \<and> evalInfixExpression ''<='' (Some (Integer a x)) (Some (Integer b y)) st
       = Inr (Some (if sint x \<le> sint y then TRUE else FALSE), st)
   \<and> evalInfixExpression ''>='' (Some (Integer a x)) (Some (Integer b y)) st
       = Inr (Some (if sint x \<ge> sint y then TRUE else FALSE), st)
   \<and> evalInfixExpression ''=='' (Some (Integer a x)) (Some (Integer b y)) st
       = Inr (Some (if sint x = sint y then TRUE else FALSE), st)
   \<and> evalInfixExpression ''!='' (Some (Integer a x)) (Some (Integer b y)) st
       = Inr (Some (if sint x \<noteq> sint y then TRUE else FALSE), st)
   \<and> (operator \<notin> {''+'', ''-'', ''*'', ''/'', ''<'', ''>'', ''=='', ''!='', ''<='', ''>=''} \<longrightarrow>
        evalInfixExpression operator (Some (Integer a x)) (Some (Integer b y)) st
          = newError (''unknown operator: INTEGER '' @ operator @ '' INTEGER'') st)
   \<and> (Type l = Type r \<and> Type l \<noteq> object_INTEGER \<longrightarrow>
        evalInfixExpression ''=='' (Some l) (Some r) st
          = Inr (Some (if same_object (Some l) (Some r) then TRUE else FALSE), st)
        \<and> evalInfixExpression ''!='' (Some l) (Some r) st
          = Inr (Some (if same_object (Some l) (Some r) then FALSE else TRUE), st)
        \<and> (operator \<noteq> ''=='' \<and> operator \<noteq> ''!='' \<longrightarrow>
             evalInfixExpression operator (Some l) (Some r) st
               = newError (''unknown operator: '' @ type_name (Type l) @ '' '' @ operator @ '' ''
                             @ type_name (Type r)) st))"
  by (simp add: evalBoolToBooleanObjectReference_def int64_quo_def word_eq_iff_signed [where ?'a = int, symmetric])

theorem infix_operator_table_witness:
  "Type (Integer 3 5) \<noteq> Type TRUE
   \<and> evalInfixExpression ''+'' (Some (Integer 3 5)) (Some TRUE) (initial\<lparr>nextAddr := 4\<rparr>)
       = Inr (Some (Error 4 ''type mismatch: INTEGER + BOOLEAN''), initial\<lparr>nextAddr := 5\<rparr>)
   \<and> Eval (Expression (InfixExpression (IntegerLiteral 5) ''+'' (BooleanLiteral True))) initial
       = Inr (Some (Error 4 ''type mismatch: INTEGER + BOOLEAN''), initial\<lparr>nextAddr := 5\<rparr>)
   \<and> (2 :: int64) \<noteq> 0
   \<and> evalInfixExpression ''/'' (Some (Integer 3 (- 7))) (Some (Integer 4 2)) (initial\<lparr>nextAddr := 5\<rparr>)
       = Inr (Some (Integer 5 (- 3)), initial\<lparr>nextAddr := 6\<rparr>)
   \<and> ''%'' \<notin> {''+'', ''-'', ''*'', ''/'', ''<'', ''>'', ''=='', ''!='', ''<='', ''>=''}
   \<and> evalInfixExpression ''%'' (Some (Integer 3 (- 7))) (Some (Integer 4 2)) (initial\<lparr>nextAddr := 5\<rparr>)
       = Inr (Some (Error 5 ''unknown operator: INTEGER % INTEGER''), initial\<lparr>nextAddr := 6\<rparr>)
   \<and> Type TRUE = Type FALSE \<and> Type TRUE \<noteq> object_INTEGER
   \<and> evalInfixExpression ''=='' (Some TRUE) (Some FALSE) initial = Inr (Some FALSE, initial)
   \<and> evalInfixExpression ''!='' (Some TRUE) (Some FALSE) initial = Inr (Some TRUE, initial)
   \<and> evalInfixExpression ''<'' (Some TRUE) (Some FALSE) initial
       = Inr (Some (Error 3 ''unknown operator: BOOLEAN < BOOLEAN''), initial\<lparr>nextAddr := 4\<rparr>)"
  using infix_operator_table [of "Integer 3 5" TRUE "''+''" "initial\<lparr>nextAddr := 4\<rparr>" 3 "- 7" 4 2]
        infix_operator_table [of TRUE FALSE "''%''" "initial\<lparr>nextAddr := 5\<rparr>" 3 "- 7" 4 2]
        infix_operator_table [of TRUE FALSE "''<''" initial 3 "- 7" 4 2]
  by (simp add: initial_def newError_def newInteger_def TRUE_def FALSE_def
        evalBoolToBooleanObjectReference_def int64_quo_def signed_divide_int_def)

subsection \<open>Fixed-width arithmetic\<close>

lemma wrap64: "signed_take_bit 63 k mod 2 ^ 64 = k mod (2 ^ 64 :: int)"
proof -
  have "take_bit 64 (signed_take_bit 63 k) = take_bit 64 k"
    by (rule take_bit_signed_take_bit) simp
  then show ?thesis by (simp add: take_bit_eq_mod)
qed

text \<open>
  C10.  On two \<open>Integer\<close> operands the infix operators \<open>+\<close>, \<open>-\<close>, \<open>*\<close> and on one
  the prefix operator \<open>-\<close> yield a fresh \<open>Integer\<close> object, never an \<open>Error\<close>.  Its value,
  read as a signed number, is the mathematical result wrapped into the 64-bit two's
  complement range, that is, equal to it modulo \<open>2 ^ 64\<close>.  Negating the least 64-bit
  integer yields that integer again.
\<close>

theorem integer_arithmetic_wraps_modulo_2_64:
  "(\<exists>z. evalInfixExpression ''+'' (Some (Integer a x)) (Some (Integer b y)) st
          = Inr (Some (Integer (nextAddr st) z), st\<lparr>nextAddr := nextAddr st + 1\<rparr>)
        \<and> sint z = signed_take_bit 63 (sint x + sint y)
        \<and> sint z mod 2 ^ 64 = (sint x + sint y) mod 2 ^ 64)
   \<and> (\<exists>z. evalInfixExpression ''-'' (Some (Integer a x)) (Some (Integer b y)) st
          = Inr (Some (Integer (nextAddr st) z), st\<lparr>nextAddr := nextAddr st + 1\<rparr>)
        \<and> sint z = signed_take_bit 63 (sint x - sint y)
        \<and> sint z mod 2 ^ 64 = (sint x - sint y) mod 2 ^ 64)
   \<and> (\<exists>z. evalInfixExpression ''*'' (Some (Integer a x)) (Some (Integer b y)) st
          = Inr (Some (Integer (nextAddr st) z), st\<lparr>nextAddr := nextAddr st + 1\<rparr>)
        \<and> sint z = signed_take_bit 63 (sint x * sint y)
        \<and> sint z mod 2 ^ 64 = (sint x * sint y) mod 2 ^ 64)
   \<and> (\<exists>z. evalPrefixExpression ''-'' (Some (Integer a x)) st
          = Inr (Some (Integer (nextAddr st) z), st\<lparr>nextAddr := nextAddr st + 1\<rparr>)
        \<and> sint z = signed_take_bit 63 (- sint x)
        \<and> sint z mod 2 ^ 64 = (- sint x) mod 2 ^ 64)
   \<and> evalPrefixExpression ''-'' (Some (Integer a (- (2 ^ 63)))) st
          = Inr (Some (Integer (nextAddr st) (- (2 ^ 63))), st\<lparr>nextAddr := nextAddr st + 1\<rparr>)"
  using wrap64 by (simp add: newInteger_def evalPrefixExpression_def sint_word_ariths)

subsection \<open>The bang operator\<close>

text \<open>
  C7.  When the operand of a prefix \<open>!\<close> evaluates to a value that is not an \<open>Error\<close>,
  the expression evaluates, in the state the operand left, to an object and never to an
  error or a panic: to \<open>FALSE\<close> when the operand is the object \<open>TRUE\<close>, to \<open>TRUE\<close> when it
  is \<open>FALSE\<close> or \<open>NULL\<close>, and to \<open>FALSE\<close> for every other value.
\<close>

theorem bang_operator_table:
  assumes "Eval (Expression e) st = Inr (v, st1)" and "\<not> isError v"
  shows "\<exists>obj. Eval (Expression (PrefixExpression ''!'' e)) st = Inr (Some obj, st1)
          \<and> (same_object v (Some TRUE) \<longrightarrow> obj = FALSE)
          \<and> (same_object v (Some FALSE) \<longrightarrow> obj = TRUE)
          \<and> (same_object v (Some NULL) \<longrightarrow> obj = TRUE)
          \<and> (\<not> same_object v (Some TRUE) \<and> \<not> same_object v (Some FALSE)
                \<and> \<not> same_object v (Some NULL) \<longrightarrow> obj = FALSE)"
  using assms
  by (cases v)
     (auto simp: evalPrefixExpression_def evalBangOperatorExpression_def
                 TRUE_def FALSE_def NULL_def)

theorem bang_operator_table_witness:
  "Eval (Expression (BooleanLiteral True)) initial = Inr (Some TRUE, initial)
   \<and> \<not> isError (Some TRUE)
   \<and> same_object (Some TRUE) (Some TRUE)
   \<and> Eval (Expression (PrefixExpression ''!'' (BooleanLiteral True))) initial
       = Inr (Some FALSE, initial)"
  using bang_operator_table [of "BooleanLiteral True" initial "Some TRUE" initial]
  by (simp add: evalBoolToBooleanObjectReference_def TRUE_def)

subsection \<open>Invariant: objects everywhere\<close>

lemma returns_object_Inr [simp]:
  "returns_object (Inr (r, st)) = (proper_value r \<and> proper_environment (env st))"
  by (cases r) (auto simp: returns_object_def)

lemma returns_object_Inl [simp]: "returns_object (Inl p) = (p = DivideByZero)"
  by (auto simp: returns_object_def)

lemma returns_object_new [simp]:
  "returns_object (newError msg st) = proper_environment (env st)"
  "returns_object (newInteger v st) = proper_environment (env st)"
  "returns_object (newReturn r st) = (proper_value r \<and> proper_environment (env st))"
  by (cases r; auto simp: newError_def newInteger_def newReturn_def)+










lemma Return_of_nil_in_environment:
  "supported (Program [ExpressionStatement (Some (Identifier ''x''))])
   \<and> Eval (Program [ExpressionStatement (Some (Identifier ''x''))])
         \<lparr>env = Environment [''x'' \<mapsto> Some (Return 3 None)] None, nextAddr = 4\<rparr>
       = Inr (None, \<lparr>env = Environment [''x'' \<mapsto> Some (Return 3 None)] None, nextAddr = 4\<rparr>)"
  by (simp add: evalIdentifier_def)


subsection \<open>Statement sequences\<close>

lemma block_loop_append:
  "\<not> is_signal res \<Longrightarrow>
   evalBlockStatement_loop res (pre @ rest) st =
     (case evalBlockStatement_loop res pre st of
        Inl p \<Rightarrow> Inl p
      | Inr (r0, st1) \<Rightarrow> if is_signal r0 then Inr (r0, st1)
                           else evalBlockStatement_loop r0 rest st1)"
proof (induction pre arbitrary: res st)
  case Nil
  then show ?case by simp
next
  case (Cons s pre)
  show ?case
  proof (cases "Eval (Statement s) st")
    case (Inl p)
    then show ?thesis by simp
  next
    case (Inr rs)
    obtain r st' where rs: "rs = (r, st')" by (cases rs)
    show ?thesis
    proof (cases "is_signal r")
      case True
      with Inr rs show ?thesis by (auto simp: is_signal_def split: option.splits)
    next
      case False
      with Inr rs Cons.IH [OF False, of st'] show ?thesis
        by (auto simp: is_signal_def split: option.splits)
    qed
  qed
qed

lemma program_loop_skip:
  "evalBlockStatement_loop res pre st = Inr (r0, st1) \<Longrightarrow> \<not> is_signal r0 \<Longrightarrow> \<not> is_signal res \<Longrightarrow>
   evalProgram_loop res (pre @ rest) st = evalProgram_loop r0 rest st1"
proof (induction pre arbitrary: res st)
  case Nil
  then show ?case by simp
next
  case (Cons s pre)
  show ?case
  proof (cases "Eval (Statement s) st")
    case (Inl p)
    with Cons.prems show ?thesis by simp
  next
    case (Inr rs)
    obtain r st' where rs: "rs = (r, st')" by (cases rs)
    show ?thesis
    proof (cases "is_signal r")
      case True
      with Inr rs Cons.prems show ?thesis by (auto simp: is_signal_def split: option.splits)
    next
      case False
      have "evalBlockStatement_loop r pre st' = Inr (r0, st1)"
        using Cons.prems(1) Inr rs False by (auto simp: is_signal_def split: option.splits)
      from Cons.IH [OF this Cons.prems(2) False] Inr rs False show ?thesis
        by (cases r) (auto simp: is_signal_def split: object.splits)
    qed
  qed
qed
text \<open>
  C4, as the code has it.  Let the statements \<open>pre\<close> run as a block from \<open>st\<close> without a
  signal, ending in \<open>st1\<close>, and let the next statement \<open>s\<close> evaluate from there to \<open>r\<close>,
  leaving \<open>st2\<close>.  If \<open>r\<close> is a \<open>Return\<close> or an \<open>Error\<close> object, both loops stop in
  \<open>st2\<close> whatever statements \<open>post\<close> follow: a block yields \<open>r\<close> itself, a program yields
  an \<open>Error\<close> itself and, for a \<open>Return\<close>, the value it wraps.  If \<open>r\<close> is no signal and \<open>s\<close>
  is the last statement, block and program yield \<open>r\<close>.
\<close>

theorem statements_in_order_until_signal:
  assumes "evalBlockStatement pre st = Inr (r0, st1)" and "\<not> is_signal r0"
    and "Eval (Statement s) st1 = Inr (r, st2)"
  shows "(is_signal r \<longrightarrow>
            Eval (Statement (BlockStatement (pre @ s # post))) st = Inr (r, st2)
          \<and> Eval (Program (pre @ s # post)) st = Inr (unwrapped r, st2))
       \<and> (\<not> is_signal r \<longrightarrow>
            Eval (Statement (BlockStatement (pre @ [s]))) st = Inr (r, st2)
          \<and> Eval (Program (pre @ [s])) st = Inr (r, st2))"
proof -
  have n: "\<not> is_signal None" by (simp add: is_signal_def)
  have pre: "evalBlockStatement_loop None pre st = Inr (r0, st1)"
    using assms(1) by (simp add: evalBlockStatement_def)
  have b: "evalBlockStatement_loop None (pre @ rest) st = evalBlockStatement_loop r0 rest st1"
    for rest
    using block_loop_append [OF n, of pre rest st] pre assms(2) by simp
  have p: "evalProgram_loop None (pre @ rest) st = evalProgram_loop r0 rest st1" for rest
    using program_loop_skip [OF pre assms(2) n] .
  show ?thesis
    using assms(3)
    by (cases r) (auto simp: b p is_signal_def unwrapped_def split: object.splits)
qed

theorem statements_in_order_until_signal_witness:
  "evalBlockStatement [ExpressionStatement (Some (IntegerLiteral 1))] initial
     = Inr (Some (Integer 3 1), initial\<lparr>nextAddr := 4\<rparr>)
   \<and> \<not> is_signal (Some (Integer 3 1))
   \<and> Eval (Statement (ReturnStatement (Some (IntegerLiteral 5)))) (initial\<lparr>nextAddr := 4\<rparr>)
     = Inr (Some (Return 5 (Some (Integer 4 5))), initial\<lparr>nextAddr := 6\<rparr>)
   \<and> is_signal (Some (Return 5 (Some (Integer 4 5))))
   \<and> Eval (Statement (BlockStatement
             [ExpressionStatement (Some (IntegerLiteral 1)),
              ReturnStatement (Some (IntegerLiteral 5)),
              ExpressionStatement (Some (IntegerLiteral 7))])) initial
     = Inr (Some (Return 5 (Some (Integer 4 5))), initial\<lparr>nextAddr := 6\<rparr>)
   \<and> Eval (Program
             [ExpressionStatement (Some (IntegerLiteral 1)),
              ReturnStatement (Some (IntegerLiteral 5)),
              ExpressionStatement (Some (IntegerLiteral 7))]) initial
     = Inr (Some (Integer 4 5), initial\<lparr>nextAddr := 6\<rparr>)"
proof -
  have h1: "evalBlockStatement [ExpressionStatement (Some (IntegerLiteral 1))] initial
     = Inr (Some (Integer 3 1), initial\<lparr>nextAddr := 4\<rparr>)"
    by (simp add: evalBlockStatement_def newInteger_def initial_def)
  have h2: "\<not> is_signal (Some (Integer 3 1))" by (simp add: is_signal_def)
  have h3: "Eval (Statement (ReturnStatement (Some (IntegerLiteral 5)))) (initial\<lparr>nextAddr := 4\<rparr>)
     = Inr (Some (Return 5 (Some (Integer 4 5))), initial\<lparr>nextAddr := 6\<rparr>)"
    by (simp add: newInteger_def newReturn_def initial_def)
  have h4: "is_signal (Some (Return 5 (Some (Integer 4 5))))" by (simp add: is_signal_def)
  show ?thesis
    using statements_in_order_until_signal
      [OF h1 h2 h3, of "[ExpressionStatement (Some (IntegerLiteral 7))]"] h1 h2 h3 h4
    by (simp add: unwrapped_def)
qed

theorem program_unwraps_return_counterexample:
  "Eval (Statement (ReturnStatement (Some (IntegerLiteral 5)))) initial
     = Inr (Some (Return 4 (Some (Integer 3 5))), initial\<lparr>nextAddr := 5\<rparr>)
   \<and> Eval (Program [ReturnStatement (Some (IntegerLiteral 5))]) initial
     = Inr (Some (Integer 3 5), initial\<lparr>nextAddr := 5\<rparr>)
   \<and> Eval (Program [ReturnStatement (Some (IntegerLiteral 5))]) initial
     \<noteq> Eval (Statement (ReturnStatement (Some (IntegerLiteral 5)))) initial"
  by (simp add: newInteger_def newReturn_def initial_def)

subsection \<open>The three canonical objects\<close>

lemma keeps_canonical_simps [simp]:
  "keeps_canonical S (Inl p)"
  "keeps_canonical S (Inr (r, st)) = (canonical_value S r \<and> canonical_environment S (env st))"
  "keeps_canonical S (newError msg st) = canonical_environment S (env st)"
  "keeps_canonical S (newInteger v st) = canonical_environment S (env st)"
  "keeps_canonical S (newReturn r st) = (canonical_value S r \<and> canonical_environment S (env st))"
  by (cases r; auto simp: keeps_canonical_def newError_def newInteger_def newReturn_def)+

lemma canonical_Return: "canonical S (Return a v) = canonical_value S v"
  by (cases v) auto

lemma canonical_bool [simp]: "canonical S (evalBoolToBooleanObjectReference b)"
  by (simp add: evalBoolToBooleanObjectReference_def TRUE_def FALSE_def)

lemma canonical_bang [simp]: "canonical S (evalBangOperatorExpression r)"
  by (simp add: evalBangOperatorExpression_def TRUE_def FALSE_def)

lemma Get_canonical:
  "canonical_environment S e \<Longrightarrow> Get e name = (v, ok) \<Longrightarrow> canonical_value S v"
  by (induction e name rule: Get.induct) (auto simp: ran_def split: option.splits)

lemma Set_canonical:
  "canonical_environment S e \<Longrightarrow> canonical_value S v \<Longrightarrow> Set e name v = (v', e')
     \<Longrightarrow> v' = v \<and> canonical_environment S e'"
  by (cases e) (fastforce simp: ran_def split: if_splits)

lemma evalIdentifier_canonical:
  "canonical_environment S (env st) \<Longrightarrow> keeps_canonical S (evalIdentifier name st)"
  by (auto simp: evalIdentifier_def dest: Get_canonical split: prod.splits)

lemma evalPrefixExpression_canonical:
  "canonical_environment S (env st) \<Longrightarrow> keeps_canonical S (evalPrefixExpression operator r st)"
  by (cases r; cases "the r") (auto simp: evalPrefixExpression_def)

lemma evalInfixExpression_canonical:
  "canonical_environment S (env st) \<Longrightarrow> keeps_canonical S (evalInfixExpression operator l r st)"
  by (cases l; cases r; cases "the l"; cases "the r") auto

lemma Eval_canonical:
  "canonical_environment S (env st) \<Longrightarrow> keeps_canonical S (Eval n st)"
  "canonical_environment S (env st) \<Longrightarrow> canonical_value S res
     \<Longrightarrow> keeps_canonical S (evalProgram_loop res stmts st)"
  "canonical_environment S (env st') \<Longrightarrow> canonical_value S res'
     \<Longrightarrow> keeps_canonical S (evalBlockStatement_loop res' stmts' st')"
  "canonical_environment S (env st'') \<Longrightarrow> keeps_canonical S (evalIfExpression c cons alt st'')"
proof (induction n st and res stmts st and res' stmts' st' and c cons alt st''
       rule: Eval_evalProgram_loop_evalBlockStatement_loop_evalIfExpression.induct)
  case (6 e st)
  then show ?case by (auto split: sum.splits)
next
  case (7 name st)
  then show ?case
    using Set_canonical [of S "env st" None name] by (auto split: prod.splits)
next
  case (8 name e st)
  then show ?case by (auto split: sum.splits prod.splits dest: Set_canonical)
next
  case (11 operator r st)
  then show ?case by (auto split: sum.splits intro: evalPrefixExpression_canonical)
next
  case (12 l operator r st)
  then show ?case by (auto split: sum.splits intro: evalInfixExpression_canonical)
next
  case (14 name st)
  then show ?case by (simp add: evalIdentifier_canonical)
next
  case (22 result stmnt rest st)
  then show ?case
    by (auto split: sum.splits option.splits object.splits simp: canonical_Return)
next
  case (24 result stmnt rest st)
  then show ?case by (auto split: sum.splits option.splits)
next
  case (25 c cons alt st)
  then show ?case by (auto split: sum.splits option.splits simp: NULL_def)
qed auto

text \<open>
  C6.  No evaluation constructs a Boolean or a Null object.  If every Boolean and Null
  object bound in the environment is one of \<open>TRUE\<close>, \<open>FALSE\<close>, \<open>NULL\<close> or belongs to a set
  \<open>given\<close>, then so is every Boolean and Null object that \<open>Eval\<close> returns, bare or wrapped
  in \<open>Return\<close> objects, and every one bound in the environment it leaves.  With nothing
  given (as in a fresh environment) all of them are the three canonical objects, and on
  those the comparison of identities is the comparison of values.
\<close>

theorem booleans_and_null_are_canonical:
  "(canonical_environment given (env st) \<and> Eval n st = Inr (r, st') \<longrightarrow>
      canonical_value given r \<and> canonical_environment given (env st'))
   \<and> (canonical {} (Boolean a v) \<and> canonical {} (Boolean b w) \<longrightarrow>
        same_object (Some (Boolean a v)) (Some (Boolean b w)) = (v = w))
   \<and> (canonical {} (Null a) \<and> canonical {} (Null b) \<longrightarrow>
        same_object (Some (Null a)) (Some (Null b)))"
  using Eval_canonical(1) [of given st n]
  by (auto simp: TRUE_def FALSE_def NULL_def)

theorem booleans_and_null_are_canonical_witness:
  "canonical_environment {} (env initial)
   \<and> Eval (Expression (InfixExpression (IntegerLiteral 1) ''<'' (IntegerLiteral 2))) initial
       = Inr (Some TRUE, initial\<lparr>nextAddr := 5\<rparr>)
   \<and> canonical_value {} (Some TRUE)
   \<and> canonical_environment {} (env (initial\<lparr>nextAddr := 5\<rparr>))
   \<and> canonical {} TRUE \<and> canonical {} FALSE
   \<and> same_object (Some TRUE) (Some TRUE) \<and> \<not> same_object (Some TRUE) (Some FALSE)"
  using booleans_and_null_are_canonical
    [of "{}" initial "Expression (InfixExpression (IntegerLiteral 1) ''<'' (IntegerLiteral 2))"
        "Some TRUE" "initial\<lparr>nextAddr := 5\<rparr>" 0 True 1 False]
  by (simp add: initial_def NewEnvironment_def newInteger_def
        evalBoolToBooleanObjectReference_def TRUE_def FALSE_def)

section \<open>Properties of the lexer\<close>

subsection \<open>Unterminated comments and strings\<close>

lemma consistent_readChar [simp]: "consistent (readChar l)"
  by (simp add: consistent_def readChar_def)

lemma readChar_fields [simp]:
  "input (readChar l) = input l" "RowNum (readChar l) = RowNum l"
  "position (readChar l) = nextPosition l" "nextPosition (readChar l) = nextPosition l + 1"
  by (simp_all add: readChar_def)

lemma countLine_fields [simp]:
  "input (countLine l) = input l" "position (countLine l) = position l"
  "nextPosition (countLine l) = nextPosition l" "ch (countLine l) = ch l"
  "RowNum (countLine l) = RowNum l + (if isLineBreak (ch l) then 1 else 0)"
  by (simp_all add: countLine_def)

lemma drop_Cons_nth: "drop n xs = c # cs \<Longrightarrow> n < length xs \<and> xs ! n = c \<and> drop (Suc n) xs = cs"
  by (metis Cons_nth_drop_Suc drop_all list.discI list.inject not_less)

lemma consistent_at:
  "consistent l \<Longrightarrow> drop (position l) (input l) = c # cs \<Longrightarrow>
     ch l = c \<and> peekChar l = (case cs of [] \<Rightarrow> NUL | d # _ \<Rightarrow> d)
     \<and> drop (nextPosition l) (input l) = cs"
proof -
  assume l: "consistent l" and d: "drop (position l) (input l) = c # cs"
  from drop_Cons_nth [OF d]
  have 1: "position l < length (input l)" and 2: "input l ! position l = c"
    and 3: "drop (Suc (position l)) (input l) = cs" by simp_all
  have n: "nextPosition l = Suc (position l)" using l by (simp add: consistent_def)
  have "peekChar l = (case cs of [] \<Rightarrow> NUL | d # _ \<Rightarrow> d)"
  proof (cases cs)
    case Nil
    with 3 show ?thesis by (simp add: peekChar_def n)
  next
    case (Cons d ds)
    with 3 drop_Cons_nth [of "Suc (position l)" "input l" d ds] show ?thesis
      by (simp add: peekChar_def n)
  qed
  with l 1 2 3 n show ?thesis by (simp add: consistent_def)
qed

lemma consistent_end:
  "consistent l \<Longrightarrow> drop (position l) (input l) = [] \<Longrightarrow> ch l = NUL"
  by (auto simp: consistent_def)

lemma has_close_Cons: "has_close cs \<Longrightarrow> has_close (c # cs)"
  by (cases cs) auto

lemma comment_loop_unterminated:
  "consistent l \<Longrightarrow> drop (position l) (input l) = s \<Longrightarrow> \<not> has_close (scanned s) \<Longrightarrow>
   fst (skipMultipleLineComment_loop lookup fmt_q l)
     = Token token_ILLEGAL (comment_message (RowNum l + line_breaks (scanned s)))
         (RowNum l + line_breaks (scanned s))"
proof (induction s arbitrary: l)
  case Nil
  then have "ch l = NUL" by (simp add: consistent_end)
  then show ?case
    by (subst skipMultipleLineComment_loop.simps)
       (simp add: scanned_def line_breaks_def comment_message_def)
next
  case (Cons c cs)
  from consistent_at [OF Cons.prems(1,2)]
  have c: "ch l = c" and p: "peekChar l = (case cs of [] \<Rightarrow> NUL | d # _ \<Rightarrow> d)"
    and d: "drop (nextPosition l) (input l) = cs" by simp_all
  show ?case
  proof (cases "c = NUL")
    case True
    with c show ?thesis
      by (subst skipMultipleLineComment_loop.simps)
         (simp add: scanned_def line_breaks_def comment_message_def)
  next
    case False
    then have sc: "scanned (c # cs) = c # scanned cs" by (simp add: scanned_def)
    have noclose: "\<not> (c = CHR ''*'' \<and> peekChar l = CHR ''/'')"
    proof
      assume a: "c = CHR ''*'' \<and> peekChar l = CHR ''/''"
      then obtain cs' where "cs = CHR ''/'' # cs'"
        using p by (cases cs) (auto simp: NUL_def)
      then have "scanned (c # cs) = CHR ''*'' # CHR ''/'' # scanned cs'"
        using a by (simp add: scanned_def NUL_def)
      with Cons.prems(3) show False by simp
    qed
    let ?l = "readChar (countLine l)"
    have 1: "consistent ?l" by simp
    have 2: "drop (position ?l) (input ?l) = cs" using d by simp
    have 3: "\<not> has_close (scanned cs)"
      using Cons.prems(3) sc has_close_Cons by auto
    have r: "RowNum ?l + line_breaks (scanned cs) = RowNum l + line_breaks (scanned (c # cs))"
      using c sc by (simp add: line_breaks_def)
    have step: "skipMultipleLineComment_loop lookup fmt_q l
                  = skipMultipleLineComment_loop lookup fmt_q ?l"
      using False c noclose by (subst skipMultipleLineComment_loop.simps) auto
    show ?thesis
      unfolding step using Cons.IH [OF 1 2 3] by (simp only: r)
  qed
qed

lemma string_loop_unterminated:
  "drop (nextPosition l) (input l) = s \<Longrightarrow> CHR 0x22 \<notin> set (scanned s) \<Longrightarrow>
   \<exists>l'. readString_loop l = Inl (Token token_ILLEGAL (string_message (RowNum l)) (RowNum l), l')"
proof (induction s arbitrary: l)
  case Nil
  then have "ch (readChar l) = NUL" by (simp add: readChar_def)
  then show ?case
    by (subst readString_loop.simps) (simp add: Let_def NUL_def string_message_def)
next
  case (Cons c cs)
  from drop_Cons_nth [OF Cons.prems(1)]
  have c: "ch (readChar l) = c" and d: "drop (nextPosition (readChar l)) (input (readChar l)) = cs"
    by (simp_all add: readChar_def)
  show ?case
  proof (cases "c = NUL")
    case True
    with c show ?thesis
      by (subst readString_loop.simps) (simp add: Let_def NUL_def string_message_def)
  next
    case False
    then have sc: "scanned (c # cs) = c # scanned cs" by (simp add: scanned_def)
    with Cons.prems(2) have q: "c \<noteq> CHR 0x22" and rest: "CHR 0x22 \<notin> set (scanned cs)" by auto
    from Cons.IH [OF d rest] obtain l' where
      "readString_loop (readChar l)
         = Inl (Token token_ILLEGAL (string_message (RowNum l)) (RowNum l), l')" by auto
    then show ?thesis
      using c q False by (subst readString_loop.simps) (simp add: Let_def)
  qed
qed

lemma skipWhitespace_id: "\<not> isWhitespace (ch l) \<Longrightarrow> skipWhitespace l = l"
  by (subst skipWhitespace.simps) simp

lemma NextToken_comment:
  "ch l = CHR ''/'' \<Longrightarrow> peekChar l = CHR ''*'' \<Longrightarrow>
   NextToken lookup fmt_q l = skipMultipleLineComment_loop lookup fmt_q (readChar (readChar l))"
  by (subst NextToken.simps) (simp add: skipWhitespace_id isWhitespace_def)

lemma NextToken_string:
  "ch l = CHR 0x22 \<Longrightarrow> NextToken lookup fmt_q l = readString l"
  by (subst NextToken.simps) (simp add: skipWhitespace_id isWhitespace_def)

text \<open>
  C5, as the code has it.  At the opening of a block comment that is never closed,
  \<open>NextToken\<close> yields an illegal-kind token whose line number is the line the lexer is on
  when the input ends: the line of the opening plus the number of line feeds and carriage
  returns inside the comment.  At the opening quote of a string literal that is never
  closed, it yields an illegal-kind token whose line number is the line of the opening
  quote.  Both messages name the same line as the token carries.
\<close>

theorem unterminated_comment_and_string:
  "(ch l = CHR ''/'' \<and> peekChar l = CHR ''*''
      \<and> \<not> has_close (scanned (drop (nextPosition l + 1) (input l))) \<longrightarrow>
      fst (NextToken lookup fmt_q l)
        = Token token_ILLEGAL
            (comment_message
               (RowNum l + line_breaks (scanned (drop (nextPosition l + 1) (input l)))))
            (RowNum l + line_breaks (scanned (drop (nextPosition l + 1) (input l)))))
   \<and> (ch l = CHR 0x22 \<and> CHR 0x22 \<notin> set (scanned (drop (nextPosition l) (input l))) \<longrightarrow>
      fst (NextToken lookup fmt_q l)
        = Token token_ILLEGAL (string_message (RowNum l)) (RowNum l))"
proof (intro conjI impI)
  assume a: "ch l = CHR ''/'' \<and> peekChar l = CHR ''*''
      \<and> \<not> has_close (scanned (drop (nextPosition l + 1) (input l)))"
  let ?l = "readChar (readChar l)"
  have "fst (skipMultipleLineComment_loop lookup fmt_q ?l)
     = Token token_ILLEGAL
         (comment_message (RowNum ?l + line_breaks (scanned (drop (nextPosition l + 1) (input l)))))
         (RowNum ?l + line_breaks (scanned (drop (nextPosition l + 1) (input l))))"
    using a by (intro comment_loop_unterminated) simp_all
  then show "fst (NextToken lookup fmt_q l)
        = Token token_ILLEGAL
            (comment_message
               (RowNum l + line_breaks (scanned (drop (nextPosition l + 1) (input l)))))
            (RowNum l + line_breaks (scanned (drop (nextPosition l + 1) (input l))))"
    using a by (simp add: NextToken_comment)
next
  assume a: "ch l = CHR 0x22 \<and> CHR 0x22 \<notin> set (scanned (drop (nextPosition l) (input l)))"
  then obtain l' where
    "readString_loop l = Inl (Token token_ILLEGAL (string_message (RowNum l)) (RowNum l), l')"
    using string_loop_unterminated [of l] by blast
  then show "fst (NextToken lookup fmt_q l)
        = Token token_ILLEGAL (string_message (RowNum l)) (RowNum l)"
    using a by (simp add: NextToken_string readString_def)
qed

lemma New_simp:
  "New s = \<lparr>input = s, position = 0, nextPosition = 1,
             ch = (if s = [] then NUL else s ! 0), RowNum = 1\<rparr>"
  by (simp add: New_def readChar_def)

theorem unterminated_comment_and_string_witness:
  "ch (New [CHR ''/'', CHR ''*'', CHR ''a'', CHR 0x0A, CHR ''b'']) = CHR ''/''
   \<and> peekChar (New [CHR ''/'', CHR ''*'', CHR ''a'', CHR 0x0A, CHR ''b'']) = CHR ''*''
   \<and> \<not> has_close (scanned [CHR ''a'', CHR 0x0A, CHR ''b''])
   \<and> RowNum (New [CHR ''/'', CHR ''*'', CHR ''a'', CHR 0x0A, CHR ''b'']) = 1
   \<and> fst (NextToken keyword_table (\<lambda>c. [c]) (New [CHR ''/'', CHR ''*'', CHR ''a'', CHR 0x0A, CHR ''b'']))
       = Token token_ILLEGAL (comment_message 2) 2
   \<and> ch (New [CHR 0x22, CHR ''a'', CHR 0x0A, CHR ''b'']) = CHR 0x22
   \<and> CHR 0x22 \<notin> set (scanned [CHR ''a'', CHR 0x0A, CHR ''b''])
   \<and> RowNum (New [CHR 0x22, CHR ''a'', CHR 0x0A, CHR ''b'']) = 1
   \<and> fst (NextToken keyword_table (\<lambda>c. [c]) (New [CHR 0x22, CHR ''a'', CHR 0x0A, CHR ''b'']))
       = Token token_ILLEGAL (string_message 1) 1"
  using unterminated_comment_and_string [of "New [CHR ''/'', CHR ''*'', CHR ''a'', CHR 0x0A, CHR ''b'']" keyword_table "\<lambda>c. [c]"]
        unterminated_comment_and_string [of "New [CHR 0x22, CHR ''a'', CHR 0x0A, CHR ''b'']" keyword_table "\<lambda>c. [c]"]
  by (simp add: New_simp peekChar_def scanned_def NUL_def line_breaks_def isLineBreak_def)

theorem unterminated_comment_line_counterexample:
  "RowNum (New [CHR ''/'', CHR ''*'', CHR 0x0A]) = 1
   \<and> LineNumber (fst (NextToken keyword_table (\<lambda>c. [c]) (New [CHR ''/'', CHR ''*'', CHR 0x0A]))) = 2"
  by (simp add: New_simp NextToken_comment peekChar_def readChar_def countLine_def isLineBreak_def
        NUL_def skipMultipleLineComment_loop.simps)

subsection \<open>Identifiers and digits\<close>

lemma letter_plain:
  "isLetter c \<Longrightarrow> \<not> isWhitespace c \<and> c \<noteq> NUL \<and> \<not> isDigit c
     \<and> c \<notin> {CHR ''='', CHR ''+'', CHR ''-'', CHR ''!'', CHR ''*'', CHR ''/'', CHR ''<'', CHR ''>'',
              CHR '','', CHR '';'', CHR ''('', CHR '')'', CHR ''{'', CHR ''}'', CHR ''['', CHR '']'',
              CHR '':'', CHR 0x22}"
  by (auto simp: isLetter_def isWhitespace_def isDigit_def NUL_def)

lemma digit_plain:
  "isDigit c \<Longrightarrow> \<not> isWhitespace c \<and> c \<noteq> NUL \<and> \<not> isLetter c
     \<and> c \<notin> {CHR ''='', CHR ''+'', CHR ''-'', CHR ''!'', CHR ''*'', CHR ''/'', CHR ''<'', CHR ''>'',
              CHR '','', CHR '';'', CHR ''('', CHR '')'', CHR ''{'', CHR ''}'', CHR ''['', CHR '']'',
              CHR '':'', CHR 0x22}"
  by (auto simp: isLetter_def isWhitespace_def isDigit_def NUL_def)

lemma NextToken_letter:
  "isLetter (ch l) \<Longrightarrow>
   NextToken lookup fmt_q l
     = (case readIdent l of (lit, l1) \<Rightarrow> (Token (lookup lit) lit (RowNum l1), l1))"
  using letter_plain [of "ch l"]
  by (subst NextToken.simps) (simp add: skipWhitespace_id)

lemma NextToken_digit:
  "isDigit (ch l) \<Longrightarrow>
   NextToken lookup fmt_q l
     = (case readNumber l of (lit, l1) \<Rightarrow> (Token token_INT lit (RowNum l1), l1))"
  using digit_plain [of "ch l"]
  by (subst NextToken.simps) (simp add: skipWhitespace_id)

lemma consistent_ahead:
  "consistent l \<Longrightarrow> ch l = ahead (drop (position l) (input l))"
  by (cases "drop (position l) (input l)")
     (auto simp: ahead_def consistent_end dest: consistent_at)

lemma readIdent_loop_run:
  "consistent l \<Longrightarrow> drop (position l) (input l) = w @ rest \<Longrightarrow> \<forall>c \<in> set w. isLetter c
     \<Longrightarrow> \<not> isLetter (ahead rest) \<Longrightarrow>
   readIdent_loop l
     = l\<lparr>position := position l + length w, nextPosition := position l + length w + 1,
          ch := ahead rest\<rparr>"
proof (induction w arbitrary: l)
  case Nil
  then have "ch l = ahead rest" by (simp add: consistent_ahead)
  with Nil show ?case
    by (subst readIdent_loop.simps) (simp add: consistent_def)
next
  case (Cons c w)
  from consistent_at [of l c "w @ rest"] Cons.prems
  have c: "ch l = c" and d: "drop (nextPosition l) (input l) = w @ rest" by simp_all
  have n: "nextPosition l = position l + 1" using Cons.prems(1) by (simp add: consistent_def)
  have "readIdent_loop (readChar l)
     = (readChar l)\<lparr>position := position (readChar l) + length w,
          nextPosition := position (readChar l) + length w + 1, ch := ahead rest\<rparr>"
    using Cons.prems d by (intro Cons.IH) simp_all
  then show ?case
    using c Cons.prems(3) n
    by (subst readIdent_loop.simps) (simp add: readChar_def)
qed

lemma readNumber_loop_run:
  "consistent l \<Longrightarrow> drop (position l) (input l) = w @ rest \<Longrightarrow> \<forall>c \<in> set w. isDigit c
     \<Longrightarrow> \<not> isDigit (ahead rest) \<Longrightarrow>
   readNumber_loop l
     = l\<lparr>position := position l + length w, nextPosition := position l + length w + 1,
          ch := ahead rest\<rparr>"
proof (induction w arbitrary: l)
  case Nil
  then have "ch l = ahead rest" by (simp add: consistent_ahead)
  with Nil show ?case
    by (subst readNumber_loop.simps) (simp add: consistent_def)
next
  case (Cons c w)
  from consistent_at [of l c "w @ rest"] Cons.prems
  have c: "ch l = c" and d: "drop (nextPosition l) (input l) = w @ rest" by simp_all
  have n: "nextPosition l = position l + 1" using Cons.prems(1) by (simp add: consistent_def)
  have "readNumber_loop (readChar l)
     = (readChar l)\<lparr>position := position (readChar l) + length w,
          nextPosition := position (readChar l) + length w + 1, ch := ahead rest\<rparr>"
    using Cons.prems d by (intro Cons.IH) simp_all
  then show ?case
    using c Cons.prems(3) n
    by (subst readNumber_loop.simps) (simp add: readChar_def)
qed

lemma slice_prefix: "drop p s = w @ rest \<Longrightarrow> slice s p (p + length w) = w"
  by (simp add: slice_def)

lemma letters_then_digits:
  assumes "consistent l"
    and "drop (position l) (input l) = letters @ digits @ rest"
    and "letters \<noteq> []" and "\<forall>c \<in> set letters. isLetter c"
    and "digits \<noteq> []" and "\<forall>c \<in> set digits. isDigit c"
    and "\<not> isDigit (ahead rest)"
  shows "fst (NextToken lookup fmt_q l) = Token (lookup letters) letters (RowNum l)
       \<and> fst (NextToken lookup fmt_q (snd (NextToken lookup fmt_q l)))
           = Token token_INT digits (RowNum l)"
proof -
  obtain d ds where digits: "digits = d # ds" using assms(5) by (cases digits) auto
  obtain a as where letters: "letters = a # as" using assms(3) by (cases letters) auto
  have d: "isDigit d" using assms(6) digits by simp
  have chl: "ch l = a"
    using consistent_at [of l a "as @ digits @ rest"] assms(1,2) letters by simp
  have al: "isLetter (ch l)" using chl assms(4) letters by simp
  have stop: "\<not> isLetter (ahead (digits @ rest))"
    using d digit_plain [of d] by (simp add: ahead_def digits)
  let ?l1 = "l\<lparr>position := position l + length letters,
                nextPosition := position l + length letters + 1, ch := ahead (digits @ rest)\<rparr>"
  have loop1: "readIdent_loop l = ?l1"
    using assms(1,2,4) stop by (intro readIdent_loop_run) simp_all
  have tok1: "NextToken lookup fmt_q l = (Token (lookup letters) letters (RowNum l), ?l1)"
    using al slice_prefix [OF assms(2)]
    by (simp add: NextToken_letter readIdent_def loop1)
  have dd: "drop (position l + length letters) (input l) = digits @ rest"
    using assms(2) by (simp add: add.commute flip: drop_drop)
  have d1: "drop (position ?l1) (input ?l1) = digits @ rest"
    using dd by simp
  have c1: "consistent ?l1"
    using drop_Cons_nth [of "position l + length letters" "input l" d "ds @ rest"] dd digits
    by (simp add: consistent_def ahead_def)
  let ?l2 = "?l1\<lparr>position := position ?l1 + length digits,
                nextPosition := position ?l1 + length digits + 1, ch := ahead rest\<rparr>"
  have loop2: "readNumber_loop ?l1 = ?l2"
    using c1 d1 assms(6,7) by (intro readNumber_loop_run)
  have rn: "readNumber ?l1 = (digits, ?l2)"
    unfolding readNumber_def loop2 Let_def using slice_prefix [OF d1] by simp
  have dg: "isDigit (ch ?l1)" using d by (simp add: ahead_def digits)
  have "NextToken lookup fmt_q ?l1 = (Token token_INT digits (RowNum ?l2), ?l2)"
    by (simp only: NextToken_digit [OF dg] rn prod.case)
  then have tok2: "fst (NextToken lookup fmt_q ?l1) = Token token_INT digits (RowNum l)"
    by simp
  show ?thesis
    using tok1 tok2 by simp
qed

lemma consistent_skipWhitespace: "consistent l \<Longrightarrow> consistent (skipWhitespace l)"
  by (induction l rule: skipWhitespace.induct) (subst skipWhitespace.simps, simp)

lemma consistent_skipOneLineComment: "consistent l \<Longrightarrow> consistent (skipOneLineComment l)"
  by (induction l rule: skipOneLineComment.induct) (subst skipOneLineComment.simps, simp)

lemma not_letter_ahead_dropWhile: "\<not> isLetter (ahead (dropWhile isLetter s))"
proof (cases "dropWhile isLetter s")
  case Nil
  have "ahead (dropWhile isLetter s) = NUL"
    unfolding ahead_def by (simp only: Nil list.case)
  then show ?thesis by simp
next
  case (Cons a list)
  have "ahead (dropWhile isLetter s) = a"
    unfolding ahead_def by (simp only: Cons list.case)
  with hd_dropWhile [of isLetter s] Cons show ?thesis by simp
qed

lemma readIdent_literal:
  "consistent l \<Longrightarrow> fst (readIdent l) = takeWhile isLetter (drop (position l) (input l))"
proof -
  assume l: "consistent l"
  let ?s = "drop (position l) (input l)"
  have s: "?s = takeWhile isLetter ?s @ dropWhile isLetter ?s" by simp
  have "readIdent_loop l
     = l\<lparr>position := position l + length (takeWhile isLetter ?s),
          nextPosition := position l + length (takeWhile isLetter ?s) + 1,
          ch := ahead (dropWhile isLetter ?s)\<rparr>"
    using l s not_letter_ahead_dropWhile
    by (intro readIdent_loop_run) (auto dest: set_takeWhileD)
  then show ?thesis
    using slice_prefix [OF s] by (simp add: readIdent_def Let_def)
qed

lemma readString_loop_illegal:
  "readString_loop l = Inl (tok, l') \<Longrightarrow> tokenType tok = token_ILLEGAL"
proof (induction l rule: readString_loop.induct)
  case (1 l)
  from "1.prems" show ?case
    by (subst (asm) readString_loop.simps) (auto simp: Let_def split: if_splits intro: "1.IH")
qed

lemma readString_not_identifier: "tokenType (fst (readString l)) \<noteq> token_IDENT"
proof (cases "readString_loop l")
  case (Inl a)
  then show ?thesis
    using readString_loop_illegal [of l "fst a" "snd a"] by (simp add: readString_def)
next
  case (Inr b)
  then show ?thesis by (simp add: readString_def Let_def)
qed

lemma identifier_tokens_are_letters:
  "consistent l0 \<Longrightarrow> letters_if_identifier (NextToken lookup fmt_q l0)"
  "letters_if_identifier (skipMultipleLineComment lookup fmt_q l)"
  "consistent l' \<Longrightarrow> letters_if_identifier (skipMultipleLineComment_loop lookup fmt_q l')"
proof (induction lookup fmt_q l0 and lookup fmt_q l and lookup fmt_q l'
       rule: NextToken_skipMultipleLineComment_skipMultipleLineComment_loop.induct)
  case (1 LookUpIdent fmt_q l0)
  let ?l = "skipWhitespace l0"
  have c: "consistent ?l" using 1 by (simp add: consistent_skipWhitespace)
  show ?case
    apply (subst NextToken.simps)
    using 1 c readIdent_literal [OF c] readString_not_identifier [of ?l]
    apply (auto simp: Let_def letters_if_identifier_def newToken_def consistent_skipOneLineComment
                split: prod.splits dest: set_takeWhileD)
    done
next
  case (2 LookUpIdent fmt_q l)
  then show ?case by simp
next
  case (3 LookUpIdent fmt_q l)
  then show ?case
    by (subst skipMultipleLineComment_loop.simps) (auto simp: letters_if_identifier_def)
qed

text \<open>
  C9, as the code has it.  A token of the identifier kind is spelt with ASCII letters and
  underscores only.  And when the lexer stands at a non-empty sequence of letters and
  underscores that is followed at once by a non-empty sequence of digits, after which the
  input ends or goes on with a byte that is no digit, \<open>NextToken\<close> yields a token whose
  literal is exactly the letter sequence and whose kind is the one \<open>LookUpIdent\<close> gives
  that word: an identifier token when the word is no keyword, the keyword's token when it
  is one.  The next call yields a separate integer token whose literal is exactly the
  digit sequence, on the same line.
\<close>

theorem identifier_stops_at_digits:
  "(consistent l0 \<and> tokenType (fst (NextToken lookup fmt_q l0)) = token_IDENT \<longrightarrow>
      (\<forall>c \<in> set (Literal (fst (NextToken lookup fmt_q l0))). isLetter c))
   \<and> (consistent l \<and> drop (position l) (input l) = letters @ digits @ rest
        \<and> letters \<noteq> [] \<and> (\<forall>c \<in> set letters. isLetter c)
        \<and> digits \<noteq> [] \<and> (\<forall>c \<in> set digits. isDigit c)
        \<and> \<not> isDigit (ahead rest) \<longrightarrow>
        fst (NextToken lookup fmt_q l) = Token (lookup letters) letters (RowNum l)
        \<and> fst (NextToken lookup fmt_q (snd (NextToken lookup fmt_q l)))
            = Token token_INT digits (RowNum l))"
  using identifier_tokens_are_letters(1) [of l0 lookup fmt_q]
        letters_then_digits [of l letters digits rest lookup fmt_q]
  by (simp add: letters_if_identifier_def)

theorem identifier_stops_at_digits_witness:
  "consistent (New ''abc1'')
   \<and> drop (position (New ''abc1'')) (input (New ''abc1'')) = ''abc'' @ ''1'' @ []
   \<and> fst (NextToken keyword_table (\<lambda>c. [c]) (New ''abc1'')) = Token token_IDENT ''abc'' 1
   \<and> fst (NextToken keyword_table (\<lambda>c. [c]) (snd (NextToken keyword_table (\<lambda>c. [c]) (New ''abc1''))))
       = Token token_INT ''1'' 1
   \<and> tokenType (fst (NextToken keyword_table (\<lambda>c. [c]) (New ''abc1''))) = token_IDENT
   \<and> isLetter (CHR ''a'') \<and> isLetter (CHR ''b'') \<and> isLetter (CHR ''c'')"
  using identifier_stops_at_digits
          [of "New ''abc1''" keyword_table "\<lambda>c. [c]" "New ''abc1''" "''abc''" "''1''" "[]"]
  by (simp add: New_simp consistent_def isLetter_def isDigit_def ahead_def NUL_def keyword_table_def)

text \<open>
  The letter prefix of \<open>if1\<close> is a keyword: the lexer yields the token of \<open>if\<close>, not an
  identifier token, and then the integer token.
\<close>

theorem keyword_prefix_counterexample:
  "fst (NextToken keyword_table (\<lambda>c. [c]) (New ''if1'')) = Token token_IF ''if'' 1
   \<and> tokenType (fst (NextToken keyword_table (\<lambda>c. [c]) (New ''if1''))) \<noteq> token_IDENT
   \<and> fst (NextToken keyword_table (\<lambda>c. [c]) (snd (NextToken keyword_table (\<lambda>c. [c]) (New ''if1''))))
       = Token token_INT ''1'' 1"
  using letters_then_digits [of "New ''if1''" "''if''" "''1''" "[]" keyword_table "\<lambda>c. [c]"]
  by (simp add: New_simp consistent_def isLetter_def isDigit_def ahead_def NUL_def keyword_table_def)

end
